theory Spec2Isabelle
  imports Main "HOL-Library.Word"
begin

section \<open>Machine types, constants and formatted output\<close>

text \<open>
  The programs are C++ built for a 64-bit Linux target: \<^verbatim>\<open>uint64_t\<close> and
  \<^verbatim>\<open>unsigned long\<close> are 64-bit words, \<^verbatim>\<open>unsigned int\<close> is a 32-bit word.
  Return codes and \<^verbatim>\<open>errno\<close> are small \<^verbatim>\<open>int\<close> values on which no arithmetic is
  done, so they are modelled as \<^typ>\<open>int\<close>.
\<close>

type_synonym u64 = "64 word"
type_synonym ulong = "64 word"
type_synonym uint = "32 word"

text \<open>\<^verbatim>\<open>static const int max_events = 32;\<close> and \<^verbatim>\<open>debounce_us = 1000\<close> of input_events.cpp.\<close>

definition max_events :: nat where
  "max_events = 32"

definition debounce_us :: nat where
  "debounce_us = 1000"

text \<open>\<^verbatim>\<open>EINTR\<close> of the Linux \<^verbatim>\<open>errno.h\<close>.\<close>

definition EINTR :: int where
  "EINTR = 4"

text \<open>The newline character written by \<^verbatim>\<open>printf("\n")\<close>.\<close>

definition NL :: string where
  "NL = [CHR 0x0A]"

text \<open>
  The conversions \<^verbatim>\<open>%lu\<close>, \<^verbatim>\<open>%u\<close> and \<^verbatim>\<open>PRIu64\<close> of \<^verbatim>\<open>printf\<close> print an unsigned value
  in decimal, most significant digit first, with no sign and no padding.
\<close>

definition digit_char :: "nat \<Rightarrow> char" where
  "digit_char d = ''0123456789'' ! d"

function dec :: "nat \<Rightarrow> string" where
  "dec n = (if n < 10 then [digit_char n] else dec (n div 10) @ [digit_char (n mod 10)])"
  by pat_completeness auto
termination
  by (relation "measure id") auto

declare dec.simps [simp del]

section \<open>Edge events and the event buffer of libgpiod\<close>

text \<open>\<^verbatim>\<open>enum gpiod_edge_event_type\<close> and the fields of a \<^verbatim>\<open>gpiod_edge_event\<close> the program reads.\<close>

datatype edge_event_type = RISING_EDGE | FALLING_EDGE

record edge_event =
  global_seqno :: ulong
  line_seqno :: ulong
  line_offset :: uint
  event_type :: edge_event_type
  timestamp_ns :: u64

text \<open>
  A \<^verbatim>\<open>gpiod_edge_event_buffer\<close>: its capacity and the events of the last read; the number
  of events it holds is the length of that list.
\<close>

record edge_event_buffer =
  capacity :: nat
  buf_events :: "edge_event list"

definition edge_event_buffer_get_num_events :: "edge_event_buffer \<Rightarrow> nat" where
  "edge_event_buffer_get_num_events b = length (buf_events b)"

text \<open>\<^verbatim>\<open>gpiod_edge_event_buffer_get_event\<close> returns \<^verbatim>\<open>NULL\<close> for an index out of range.\<close>

definition edge_event_buffer_get_event :: "edge_event_buffer \<Rightarrow> nat \<Rightarrow> edge_event option" where
  "edge_event_buffer_get_event b i =
     (if i < length (buf_events b) then Some (buf_events b ! i) else None)"

section \<open>The process state\<close>

text \<open>
  The calls into libgpiod that the programs check or that acquire and give back a
  resource; the trace of a run is the list of the calls that were made, in order.
\<close>

datatype line_value = INACTIVE | ACTIVE

datatype lib_call =
    EDGE_EVENT_BUFFER_NEW
  | LINE_SETTINGS_NEW
  | LINE_CONFIG_NEW
  | LINE_CONFIG_ADD_LINE_SETTINGS
  | LINE_CONFIG_SET_OUTPUT_VALUES
  | CHIP_OPEN
  | REQUEST_CONFIG_NEW
  | CHIP_REQUEST_LINES
  | LINE_REQUEST_GET_VALUES
  | LINE_REQUEST_SET_VALUE line_value
  | LINE_REQUEST_SET_VALUES "line_value list"
  | LINE_REQUEST_RELEASE
  | CHIP_CLOSE

text \<open>
  How far the process has come: still executing, still in its loop when the observed
  environment ends, returned from \<^verbatim>\<open>main\<close> with a status, aborted by a failed
  \<^verbatim>\<open>assert\<close>, killed by a SIGINT that had its default disposition, or crashed on a
  null pointer.
\<close>

datatype status = Running | Unfinished | Exited int | Aborted | Killed | Crashed

record proc =
  quitting :: bool
  handler_installed :: bool
  stdout :: string
  trace :: "lib_call list"
  status :: status

text \<open>The locals of input_events.cpp that live across loop iterations.\<close>

record events_proc = proc +
  last_ns :: u64
  events :: edge_event_buffer

definition printf :: "string \<Rightarrow> 'a proc_scheme \<Rightarrow> 'a proc_scheme" where
  "printf str s = s\<lparr>stdout := stdout s @ str\<rparr>"

section \<open>input_events.cpp: reporting one batch\<close>

text \<open>The body of the \<^verbatim>\<open>for\<close> loop (lines 165 to 177) for one event.\<close>

definition print_event :: "edge_event \<Rightarrow> events_proc \<Rightarrow> events_proc" where
  "print_event event s =
     (let gs = global_seqno event;
          ls = line_seqno event;
          pin_num = line_offset event;
          pin_val = (if event_type event = RISING_EDGE then 1 else 0 :: uint);
          ts = timestamp_ns event;
          s1 = printf (dec (unat gs) @ '':'' @ dec (unat ls) @ '' pin '' @ dec (unat pin_num)
                 @ '' = '' @ dec (unat pin_val) @ '' @ '' @ dec (unat ts)) s;
          s2 = (if last_ns s1 \<noteq> 0 then printf ('' +'' @ dec (unat (ts - last_ns s1))) s1 else s1);
          s3 = s2\<lparr>last_ns := ts\<rparr>
      in printf NL s3)"

text \<open>
  The \<^verbatim>\<open>for\<close> loop of lines 163 to 178, from index \<open>i\<close> on. The buffer holds at most
  \<^const>\<open>max_events\<close> events, so the \<^verbatim>\<open>unsigned\<close> counter cannot wrap and is a \<^typ>\<open>nat\<close>.
  Dereferencing a null event would crash the process.
\<close>

function print_events :: "nat \<Rightarrow> events_proc \<Rightarrow> events_proc" where
  "print_events i s =
     (if i < edge_event_buffer_get_num_events (events s) then
        (case edge_event_buffer_get_event (events s) i of
           None \<Rightarrow> s\<lparr>status := Crashed\<rparr>
         | Some event \<Rightarrow> print_events (Suc i) (print_event event s))
      else s)"
  by pat_completeness auto

lemma events_print_event [simp]: "events (print_event event s) = events s"
  by (simp add: print_event_def printf_def Let_def)

termination print_events
  by (relation "measure (\<lambda>(i, s). edge_event_buffer_get_num_events (events s) - i)") auto

declare print_events.simps [simp del]

subsection \<open>The record format of the specification\<close>

text \<open>
  The output format of section 6 of the specification,
  \<^verbatim>\<open><global_seqno>:<line_seqno> pin <offset> = <0|1> @ <timestamp_ns>[ +<delta_ns>]\<close>,
  with the level of section 4.5 (rising is 1, falling is 0) and an optional delta. These
  two definitions follow the specification; the loop above is compared with them.
\<close>

definition spec_level :: "edge_event_type \<Rightarrow> nat" where
  "spec_level t = (case t of RISING_EDGE \<Rightarrow> 1 | FALLING_EDGE \<Rightarrow> 0)"

definition spec_record :: "edge_event \<Rightarrow> nat option \<Rightarrow> string" where
  "spec_record e delta =
     dec (unat (global_seqno e)) @ '':'' @ dec (unat (line_seqno e)) @ '' pin ''
       @ dec (unat (line_offset e)) @ '' = '' @ dec (spec_level (event_type e)) @ '' @ ''
       @ dec (unat (timestamp_ns e))
       @ (case delta of None \<Rightarrow> [] | Some d \<Rightarrow> '' +'' @ dec d)"

text \<open>
  The delta the loop body prints for an event with timestamp \<open>t\<close> when the previous
  timestamp is \<open>p\<close>: none when \<open>p\<close> is 0, the 64-bit difference otherwise.
\<close>

definition printed_delta :: "u64 \<Rightarrow> u64 \<Rightarrow> nat option" where
  "printed_delta p t = (if p = 0 then None else Some (unat (t - p)))"

subsection \<open>What one event and one batch write\<close>

lemma stdout_print_event:
  "stdout (print_event e s) =
     stdout s @ spec_record e (printed_delta (last_ns s) (timestamp_ns e)) @ NL"
  by (cases "event_type e")
     (simp_all add: print_event_def printf_def Let_def spec_record_def spec_level_def
        printed_delta_def)

lemma last_ns_print_event [simp]: "last_ns (print_event e s) = timestamp_ns e"
  by (simp add: print_event_def printf_def Let_def)

lemma proc_print_event [simp]:
  "status (print_event e s) = status s"
  "trace (print_event e s) = trace s"
  "quitting (print_event e s) = quitting s"
  "handler_installed (print_event e s) = handler_installed s"
  by (simp_all add: print_event_def printf_def Let_def)

text \<open>The indexed loop is a left fold of the loop body over the events from \<open>i\<close> on.\<close>

lemma print_events_foldl:
  "print_events i s = foldl (\<lambda>s e. print_event e s) s (drop i (buf_events (events s)))"
proof (induction i s rule: print_events.induct)
  case (1 i s)
  show ?case
  proof (cases "i < length (buf_events (events s))")
    case True
    then have d: "drop i (buf_events (events s)) =
        buf_events (events s) ! i # drop (Suc i) (buf_events (events s))"
      by (simp add: Cons_nth_drop_Suc)
    have "print_events i s = print_events (Suc i) (print_event (buf_events (events s) ! i) s)"
      using True
      by (subst print_events.simps)
         (simp add: edge_event_buffer_get_num_events_def edge_event_buffer_get_event_def)
    also have "\<dots> = foldl (\<lambda>s e. print_event e s) (print_event (buf_events (events s) ! i) s)
        (drop (Suc i) (buf_events (events s)))"
      using "1.IH" [of "buf_events (events s) ! i"] True
      by (simp add: edge_event_buffer_get_num_events_def edge_event_buffer_get_event_def)
    finally show ?thesis
      by (simp add: d)
  next
    case False
    then show ?thesis
      by (subst print_events.simps) (simp add: edge_event_buffer_get_num_events_def)
  qed
qed

lemma stdout_foldl_print_event:
  "stdout (foldl (\<lambda>s e. print_event e s) s es) =
     stdout s @ concat (map (\<lambda>(p, e). spec_record e (printed_delta p (timestamp_ns e)) @ NL)
       (zip (last_ns s # map timestamp_ns es) es))"
proof (induction es arbitrary: s)
  case Nil
  show ?case by simp
next
  case (Cons e es)
  show ?case
    by (simp add: Cons.IH stdout_print_event)
qed

lemma last_ns_foldl_print_event:
  "last_ns (foldl (\<lambda>s e. print_event e s) s es) = last (last_ns s # map timestamp_ns es)"
  by (induction es arbitrary: s) simp_all

lemma proc_foldl_print_event:
  "status (foldl (\<lambda>s e. print_event e s) s es) = status s"
  "trace (foldl (\<lambda>s e. print_event e s) s es) = trace s"
  "quitting (foldl (\<lambda>s e. print_event e s) s es) = quitting s"
  "handler_installed (foldl (\<lambda>s e. print_event e s) s es) = handler_installed s"
  "events (foldl (\<lambda>s e. print_event e s) s es) = events s"
  by (induction es arbitrary: s) simp_all

text \<open>The loop over a batch changes the output and \<^verbatim>\<open>last_ns\<close> only; it never crashes.\<close>

lemma proc_print_events:
  "status (print_events i s) = status s"
  "trace (print_events i s) = trace s"
  "quitting (print_events i s) = quitting s"
  "handler_installed (print_events i s) = handler_installed s"
  "events (print_events i s) = events s"
  by (simp_all add: print_events_foldl proc_foldl_print_event)

section \<open>Signals, library calls and the statement sequence of a program\<close>

text \<open>\<^verbatim>\<open>ctrl_c_handler\<close>, the same function in every program.\<close>

definition ctrl_c_handler :: "'a proc_scheme \<Rightarrow> 'a proc_scheme" where
  "ctrl_c_handler s = s\<lparr>quitting := True\<rparr>"

text \<open>\<^verbatim>\<open>signal(SIGINT, ctrl_c_handler)\<close>.\<close>

definition signal_SIGINT :: "'a proc_scheme \<Rightarrow> 'a proc_scheme" where
  "signal_SIGINT s = s\<lparr>handler_installed := True\<rparr>"

text \<open>
  A SIGINT reaches the process: the handler runs when it is installed; before that the
  signal has its default disposition, which terminates the process.
\<close>

definition deliver_sigint :: "'a proc_scheme \<Rightarrow> 'a proc_scheme" where
  "deliver_sigint s = (if handler_installed s then ctrl_c_handler s else s\<lparr>status := Killed\<rparr>)"

text \<open>
  The environment of the straight-line part of a program: which library calls fail, and
  the call, if any, during which a SIGINT arrives.
\<close>

record env =
  call_fails :: "lib_call \<Rightarrow> bool"
  sigint_at :: "lib_call option"

text \<open>
  A library call followed by an \<^verbatim>\<open>assert\<close> on its result: a failing call aborts the
  process (CMakeLists.txt sets no build type and does not define \<^verbatim>\<open>NDEBUG\<close>, so the
  assertions are compiled in). The trace records the calls that succeeded.
\<close>

definition checked_call :: "env \<Rightarrow> lib_call \<Rightarrow> 'a proc_scheme \<Rightarrow> 'a proc_scheme" where
  "checked_call env c s =
     (let s1 = (if sigint_at env = Some c then deliver_sigint s else s) in
      if status s1 \<noteq> Running then s1
      else if call_fails env c then s1\<lparr>status := Aborted\<rparr>
      else s1\<lparr>trace := trace s1 @ [c]\<rparr>)"

text \<open>A library call whose result the program does not look at.\<close>

definition void_call :: "env \<Rightarrow> lib_call \<Rightarrow> 'a proc_scheme \<Rightarrow> 'a proc_scheme" where
  "void_call env c s =
     (let s1 = (if sigint_at env = Some c then deliver_sigint s else s) in
      if status s1 \<noteq> Running then s1
      else s1\<lparr>trace := trace s1 @ [c]\<rparr>)"

text \<open>\<^verbatim>\<open>return n;\<close> in \<^verbatim>\<open>main\<close>.\<close>

definition return_main :: "int \<Rightarrow> 'a proc_scheme \<Rightarrow> 'a proc_scheme" where
  "return_main n s = s\<lparr>status := Exited n\<rparr>"

text \<open>
  The statements of \<^verbatim>\<open>main\<close> in order; a statement runs only while the process is
  still running.
\<close>

fun exec :: "('a proc_scheme \<Rightarrow> 'a proc_scheme) list \<Rightarrow> 'a proc_scheme \<Rightarrow> 'a proc_scheme" where
  "exec [] s = s"
| "exec (f # fs) s = (if status s = Running then exec fs (f s) else s)"

section \<open>input_events.cpp: the monitoring loop and main\<close>

text \<open>
  What happens while the process is blocked in
  \<^verbatim>\<open>gpiod_line_request_wait_edge_events(request, -1)\<close>: a SIGINT arrives, or the call
  returns a value and leaves a value in \<^verbatim>\<open>errno\<close>.
\<close>

datatype wait_event = SIGINT_WHILE_BLOCKED | WAIT_RETURNS int int

text \<open>
  The wait is a call into libgpiod; by the comment of lines 147 to 150 it returns 1 when
  an event is available, 0 on a timeout and -1 on an error. The environment chooses the
  result and the value of \<^verbatim>\<open>errno\<close>, and the model returns both. A signal that is caught
  while the call is blocked runs its handler and makes the call return -1 with \<^verbatim>\<open>EINTR\<close>,
  the case that line 153 marks as ctrl-c.
\<close>

fun line_request_wait_edge_events ::
  "wait_event \<Rightarrow> 'a proc_scheme \<Rightarrow> int \<times> int \<times> 'a proc_scheme" where
  "line_request_wait_edge_events SIGINT_WHILE_BLOCKED s = (- 1, EINTR, deliver_sigint s)"
| "line_request_wait_edge_events (WAIT_RETURNS r e) s = (r, e, s)"

text \<open>
  Modelled from the spec: \<^verbatim>\<open>gpiod_line_request_read_edge_events\<close> belongs to libgpiod and
  is not part of the sources. Sections 3 and 4.4 of the specification: a destructive
  batch read of the pending events into the bounded buffer, which overwrites the buffer
  from index 0; on success the count of events is returned, it is the number of events
  the buffer then holds and \<open>0 < count \<le> capacity\<close>; a failing underlying read is an
  error (the C function returns -1).
\<close>

definition line_request_read_edge_events ::
  "bool \<Rightarrow> edge_event list \<Rightarrow> edge_event_buffer \<Rightarrow> nat \<Rightarrow> int \<times> edge_event_buffer" where
  "line_request_read_edge_events fails pending_events buf max_ev =
     (let batch = take (min max_ev (capacity buf)) pending_events in
      if fails \<or> batch = [] then (- 1, buf)
      else (int (length batch), buf\<lparr>buf_events := batch\<rparr>))"

text \<open>
  One iteration of the \<^verbatim>\<open>while\<close> loop as the environment drives it: whether a SIGINT
  was delivered before the loop condition is evaluated, what the wait does, whether the
  read fails, and the events that are pending when the read is made.
\<close>

record round =
  sigint_head :: bool
  wait :: wait_event
  read_fails :: bool
  pending :: "edge_event list"

text \<open>
  The \<^verbatim>\<open>while (!quitting)\<close> loop of lines 145 to 182. The loop is left with the status
  still \<^const>\<open>Running\<close> when the flag is seen or on \<^verbatim>\<open>break\<close>; a failed \<^verbatim>\<open>assert\<close>
  aborts. When the environment has no further round the process stays blocked in the
  wait.
\<close>

fun monitor :: "round list \<Rightarrow> events_proc \<Rightarrow> events_proc" where
  "monitor [] s = (if quitting s then s else s\<lparr>status := Unfinished\<rparr>)"
| "monitor (r # rs) s =
     (let s1 = (if sigint_head r then deliver_sigint s else s) in
      if status s1 \<noteq> Running \<or> quitting s1 then s1
      else
        (case line_request_wait_edge_events (wait r) s1 of
           (r2, errno, s2) \<Rightarrow>
             if status s2 \<noteq> Running then s2
             else if r2 < 0 \<and> errno = EINTR then s2
             else if r2 \<noteq> 1 then s2\<lparr>status := Aborted\<rparr>
             else
               (case line_request_read_edge_events (read_fails r) (pending r) (events s2) max_events of
                  (num_events, buf) \<Rightarrow>
                    if \<not> 0 < num_events then s2\<lparr>status := Aborted\<rparr>
                    else
                      (let s3 = print_events 0 (s2\<lparr>events := buf\<rparr>) in
                       if status s3 \<noteq> Running then s3
                       else monitor rs (printf NL s3)))))"

text \<open>The state in which \<^verbatim>\<open>main\<close> of input_events.cpp starts.\<close>

definition init_events_proc :: events_proc where
  "init_events_proc =
     \<lparr>quitting = False, handler_installed = False, stdout = [], trace = [], status = Running,
      last_ns = 0, events = \<lparr>capacity = 0, buf_events = []\<rparr>\<rparr>"

text \<open>\<^verbatim>\<open>gpiod_edge_event_buffer_new(max_events)\<close>, asserted to be non-null.\<close>

definition edge_event_buffer_new :: "env \<Rightarrow> nat \<Rightarrow> events_proc \<Rightarrow> events_proc" where
  "edge_event_buffer_new env cap s =
     checked_call env EDGE_EVENT_BUFFER_NEW (s\<lparr>events := \<lparr>capacity = cap, buf_events = []\<rparr>\<rparr>)"

text \<open>\<^verbatim>\<open>main\<close> of input_events.cpp, statement by statement.\<close>

definition main_input_events :: "env \<Rightarrow> round list \<Rightarrow> events_proc" where
  "main_input_events env rounds =
     exec
       [edge_event_buffer_new env max_events,
        checked_call env LINE_SETTINGS_NEW,
        checked_call env LINE_CONFIG_NEW,
        checked_call env LINE_CONFIG_ADD_LINE_SETTINGS,
        checked_call env CHIP_OPEN,
        checked_call env REQUEST_CONFIG_NEW,
        checked_call env CHIP_REQUEST_LINES,
        printf (''debounce time = '' @ dec debounce_us @ '' usec'' @ NL),
        (\<lambda>s. s\<lparr>last_ns := 0\<rparr>),
        signal_SIGINT,
        monitor rounds,
        void_call env LINE_REQUEST_RELEASE,
        void_call env CHIP_CLOSE,
        return_main 0]
       init_events_proc"

section \<open>Properties of the statement sequence\<close>

lemma exec_append: "exec (fs @ gs) s = exec gs (exec fs s)"
proof (induction fs arbitrary: s)
  case Nil
  show ?case by simp
next
  case (Cons f fs)
  show ?case
  proof (cases "status s = Running")
    case True
    then show ?thesis by (simp add: Cons.IH)
  next
    case False
    then show ?thesis by (cases gs) simp_all
  qed
qed

lemma exec_stopped: "status s \<noteq> Running \<Longrightarrow> exec fs s = s"
  by (cases fs) simp_all

lemma exec_single: "exec [f] s = (if status s = Running then f s else s)"
  by simp

lemma exec_Cons_running: "status s = Running \<Longrightarrow> exec (f # fs) s = exec fs (f s)"
  by simp

declare exec.simps [simp del]

text \<open>
  A run of asserted calls: all of them succeed and none is hit by a SIGINT, or the
  process is stopped by the first one that fails or during which the signal arrives
  (here before the handler is installed).
\<close>

definition calls_ok :: "env \<Rightarrow> lib_call list \<Rightarrow> bool" where
  "calls_ok env cs = list_all (\<lambda>c. \<not> call_fails env c \<and> sigint_at env \<noteq> Some c) cs"

lemma exec_checked_calls_ok:
  "calls_ok env cs \<Longrightarrow> status s = Running \<Longrightarrow>
     exec (map (checked_call env) cs) s = s\<lparr>trace := trace s @ cs\<rparr>"
proof (induction cs arbitrary: s)
  case Nil
  show ?case by (simp add: exec.simps)
next
  case (Cons c cs)
  have step: "checked_call env c s = s\<lparr>trace := trace s @ [c]\<rparr>"
    using Cons.prems by (simp add: checked_call_def calls_ok_def)
  have "exec (map (checked_call env) (c # cs)) s = exec (map (checked_call env) cs) (checked_call env c s)"
    using Cons.prems(2) by (simp add: exec_Cons_running)
  also have "\<dots> = (checked_call env c s)\<lparr>trace := trace (checked_call env c s) @ cs\<rparr>"
    using Cons.prems by (intro Cons.IH) (simp_all add: step calls_ok_def)
  finally show ?case
    by (simp add: step)
qed

lemma checked_call_unhandled:
  assumes "status s = Running" "\<not> handler_installed s"
  shows "checked_call env c s =
     (if sigint_at env = Some c then s\<lparr>status := Killed\<rparr>
      else if call_fails env c then s\<lparr>status := Aborted\<rparr>
      else s\<lparr>trace := trace s @ [c]\<rparr>)"
  using assms by (simp add: checked_call_def deliver_sigint_def Let_def)

lemma exec_checked_calls_fail:
  "\<not> calls_ok env cs \<Longrightarrow> status s = Running \<Longrightarrow> \<not> handler_installed s \<Longrightarrow>
     (status (exec (map (checked_call env) cs) s) = Aborted
        \<or> status (exec (map (checked_call env) cs) s) = Killed)
     \<and> set (trace (exec (map (checked_call env) cs) s)) \<subseteq> set (trace s) \<union> set cs
     \<and> stdout (exec (map (checked_call env) cs) s) = stdout s
     \<and> quitting (exec (map (checked_call env) cs) s) = quitting s
     \<and> \<not> handler_installed (exec (map (checked_call env) cs) s)"
proof (induction cs arbitrary: s)
  case Nil
  then show ?case by (simp add: calls_ok_def)
next
  case (Cons c cs)
  have unfold: "exec (map (checked_call env) (c # cs)) s =
      exec (map (checked_call env) cs) (checked_call env c s)"
    using Cons.prems(2) by (simp add: exec_Cons_running)
  note step = checked_call_unhandled [OF Cons.prems(2,3), of env c]
  show ?case
  proof (cases "\<not> call_fails env c \<and> sigint_at env \<noteq> Some c")
    case True
    then have "\<not> calls_ok env cs"
      using Cons.prems(1) by (simp add: calls_ok_def)
    then have "(status (exec (map (checked_call env) cs) (checked_call env c s)) = Aborted
        \<or> status (exec (map (checked_call env) cs) (checked_call env c s)) = Killed)
      \<and> set (trace (exec (map (checked_call env) cs) (checked_call env c s)))
          \<subseteq> set (trace (checked_call env c s)) \<union> set cs
      \<and> stdout (exec (map (checked_call env) cs) (checked_call env c s)) = stdout (checked_call env c s)
      \<and> quitting (exec (map (checked_call env) cs) (checked_call env c s)) = quitting (checked_call env c s)
      \<and> \<not> handler_installed (exec (map (checked_call env) cs) (checked_call env c s))"
      using Cons.prems True by (intro Cons.IH) (simp_all add: step)
    then show ?thesis
      unfolding unfold using True by (auto simp: step)
  next
    case False
    then have "status (checked_call env c s) \<noteq> Running"
      by (auto simp: step)
    then have "exec (map (checked_call env) cs) (checked_call env c s) = checked_call env c s"
      by (rule exec_stopped)
    then show ?thesis
      unfolding unfold using False Cons.prems(3) by (auto simp: step)
  qed
qed

section \<open>Properties of the monitoring loop\<close>

text \<open>
  A round in which the loop body runs to its end: no SIGINT before the loop condition,
  the wait returns 1, and the read succeeds on at least one pending event.
\<close>

definition ready_round :: "round \<Rightarrow> bool" where
  "ready_round r \<longleftrightarrow>
     \<not> sigint_head r
     \<and> (case wait r of WAIT_RETURNS r2 e \<Rightarrow> r2 = 1 | SIGINT_WHILE_BLOCKED \<Rightarrow> False)
     \<and> \<not> read_fails r \<and> pending r \<noteq> []"

text \<open>The loop body after a successful read of the batch \<open>b\<close>: the report and the blank line.\<close>

definition report_batch :: "edge_event list \<Rightarrow> events_proc \<Rightarrow> events_proc" where
  "report_batch b s = printf NL (print_events 0 (s\<lparr>events := (events s)\<lparr>buf_events := b\<rparr>\<rparr>))"

lemma monitor_ready:
  assumes "status s = Running" "\<not> quitting s" "ready_round r" "capacity (events s) = max_events"
  shows "monitor (r # rs) s = monitor rs (report_batch (take max_events (pending r)) s)"
proof -
  obtain e where w: "wait r = WAIT_RETURNS 1 e"
    using assms(3) by (auto simp: ready_round_def split: wait_event.splits)
  have b: "take max_events (pending r) \<noteq> []"
    using assms(3) by (simp add: ready_round_def max_events_def)
  have rd: "line_request_read_edge_events False (pending r) (events s) max_events =
      (int (length (take max_events (pending r))),
       (events s)\<lparr>buf_events := take max_events (pending r)\<rparr>)"
    using assms(4) b by (simp add: line_request_read_edge_events_def Let_def)
  show ?thesis
    using assms(1,2,3) w b
    by (simp add: rd ready_round_def report_batch_def proc_print_events)
qed

lemma report_batch_proc:
  "status (report_batch b s) = status s"
  "trace (report_batch b s) = trace s"
  "quitting (report_batch b s) = quitting s"
  "handler_installed (report_batch b s) = handler_installed s"
  "capacity (events (report_batch b s)) = capacity (events s)"
  "last_ns (report_batch b s) = last (last_ns s # map timestamp_ns b)"
  by (simp_all add: report_batch_def printf_def proc_print_events print_events_foldl
      last_ns_foldl_print_event proc_foldl_print_event)

lemma stdout_report_batch:
  "stdout (report_batch b s) =
     stdout s @ concat (map (\<lambda>(p, e). spec_record e (printed_delta p (timestamp_ns e)) @ NL)
       (zip (last_ns s # map timestamp_ns b) b)) @ NL"
  by (simp add: report_batch_def printf_def print_events_foldl stdout_foldl_print_event)

text \<open>Every other round ends the loop, without output and without a library call.\<close>

lemma monitor_not_ready:
  assumes "status s = Running" "handler_installed s" "\<not> ready_round r"
    "capacity (events s) = max_events"
  shows "(status (monitor (r # rs) s) = Running \<or> status (monitor (r # rs) s) = Aborted)
     \<and> trace (monitor (r # rs) s) = trace s \<and> stdout (monitor (r # rs) s) = stdout s
     \<and> handler_installed (monitor (r # rs) s)"
  using assms
  by (cases "wait r")
    (auto simp: ready_round_def Let_def deliver_sigint_def ctrl_c_handler_def
       line_request_read_edge_events_def max_events_def split: if_splits)

text \<open>The batches that a list of ready rounds reports, and their reports one after the other.\<close>

fun report_batches :: "edge_event list list \<Rightarrow> events_proc \<Rightarrow> events_proc" where
  "report_batches [] s = s"
| "report_batches (b # bs) s = report_batches bs (report_batch b s)"

definition batches :: "round list \<Rightarrow> edge_event list list" where
  "batches rs = map (\<lambda>r. take max_events (pending r)) rs"

lemma report_batches_proc:
  "status (report_batches bs s) = status s"
  "trace (report_batches bs s) = trace s"
  "quitting (report_batches bs s) = quitting s"
  "handler_installed (report_batches bs s) = handler_installed s"
  "capacity (events (report_batches bs s)) = capacity (events s)"
  by (induction bs arbitrary: s) (simp_all add: report_batch_proc)

lemma monitor_ready_rounds:
  assumes "\<forall>r\<in>set pre. ready_round r" "status s = Running" "\<not> quitting s"
    "capacity (events s) = max_events"
  shows "monitor (pre @ rest) s = monitor rest (report_batches (batches pre) s)"
  using assms
proof (induction pre arbitrary: s)
  case Nil
  show ?case by (simp add: batches_def)
next
  case (Cons r pre)
  have "monitor ((r # pre) @ rest) s = monitor (pre @ rest) (report_batch (take max_events (pending r)) s)"
    using Cons.prems by (simp add: monitor_ready del: monitor.simps)
  also have "\<dots> = monitor rest (report_batches (batches pre) (report_batch (take max_events (pending r)) s))"
    using Cons.prems by (intro Cons.IH) (simp_all add: report_batch_proc)
  finally show ?case
    by (simp add: batches_def)
qed

lemma monitor_outcome:
  assumes "status s = Running" "handler_installed s" "capacity (events s) = max_events"
  shows "(status (monitor rs s) = Running \<or> status (monitor rs s) = Aborted
       \<or> status (monitor rs s) = Unfinished)
     \<and> trace (monitor rs s) = trace s \<and> handler_installed (monitor rs s)"
  using assms
proof (induction rs arbitrary: s)
  case Nil
  then show ?case by simp
next
  case (Cons r rs)
  show ?case
  proof (cases "ready_round r \<and> \<not> quitting s")
    case True
    then have "monitor (r # rs) s = monitor rs (report_batch (take max_events (pending r)) s)"
      using Cons.prems by (simp add: monitor_ready del: monitor.simps)
    moreover have "(status (monitor rs (report_batch (take max_events (pending r)) s)) = Running
        \<or> status (monitor rs (report_batch (take max_events (pending r)) s)) = Aborted
        \<or> status (monitor rs (report_batch (take max_events (pending r)) s)) = Unfinished)
      \<and> trace (monitor rs (report_batch (take max_events (pending r)) s)) =
          trace (report_batch (take max_events (pending r)) s)
      \<and> handler_installed (monitor rs (report_batch (take max_events (pending r)) s))"
      using Cons.prems by (intro Cons.IH) (simp_all add: report_batch_proc)
    ultimately show ?thesis
      by (simp add: report_batch_proc)
  next
    case False
    show ?thesis
    proof (cases "quitting s")
      case True
      then show ?thesis
        using Cons.prems by (simp add: Let_def deliver_sigint_def ctrl_c_handler_def)
    next
      case nq: False
      with False have "\<not> ready_round r" by simp
      then show ?thesis
        using monitor_not_ready [OF Cons.prems(1,2) _ Cons.prems(3), of r rs] by blast
    qed
  qed
qed


declare monitor.simps(2) [simp del]

section \<open>input_events.cpp: startup and teardown\<close>

text \<open>The asserted calls of input_events.cpp, in the order in which \<^verbatim>\<open>main\<close> makes them.\<close>

definition startup_calls :: "lib_call list" where
  "startup_calls =
     [EDGE_EVENT_BUFFER_NEW, LINE_SETTINGS_NEW, LINE_CONFIG_NEW, LINE_CONFIG_ADD_LINE_SETTINGS,
      CHIP_OPEN, REQUEST_CONFIG_NEW, CHIP_REQUEST_LINES]"

text \<open>The state in which the loop is entered when every one of them has succeeded.\<close>

definition started :: events_proc where
  "started =
     \<lparr>quitting = False, handler_installed = True,
      stdout = ''debounce time = 1000 usec'' @ NL, trace = startup_calls, status = Running,
      last_ns = 0, events = \<lparr>capacity = max_events, buf_events = []\<rparr>\<rparr>"

lemma dec_debounce_us: "dec debounce_us = ''1000''"
  by (simp add: debounce_us_def dec.simps digit_char_def)

lemma main_input_events_split:
  "main_input_events env rounds =
     exec [printf (''debounce time = '' @ dec debounce_us @ '' usec'' @ NL),
           (\<lambda>s. s\<lparr>last_ns := 0\<rparr>), signal_SIGINT, monitor rounds,
           void_call env LINE_REQUEST_RELEASE, void_call env CHIP_CLOSE, return_main 0]
       (exec (map (checked_call env) startup_calls)
          (init_events_proc\<lparr>events := \<lparr>capacity = max_events, buf_events = []\<rparr>\<rparr>))"
proof -
  have run: "status init_events_proc = Running"
    "status (init_events_proc\<lparr>events := \<lparr>capacity = max_events, buf_events = []\<rparr>\<rparr>) = Running"
    by (simp_all add: init_events_proc_def)
  have "exec (map (checked_call env) startup_calls)
          (init_events_proc\<lparr>events := \<lparr>capacity = max_events, buf_events = []\<rparr>\<rparr>) =
        exec [edge_event_buffer_new env max_events,
        checked_call env LINE_SETTINGS_NEW,
        checked_call env LINE_CONFIG_NEW,
        checked_call env LINE_CONFIG_ADD_LINE_SETTINGS,
        checked_call env CHIP_OPEN,
        checked_call env REQUEST_CONFIG_NEW,
        checked_call env CHIP_REQUEST_LINES] init_events_proc"
    by (simp add: startup_calls_def exec_Cons_running run edge_event_buffer_new_def)
  then show ?thesis
    unfolding main_input_events_def
    by (simp only: exec_append [symmetric] append.simps)
qed

lemma main_input_events_started:
  assumes "calls_ok env startup_calls"
  shows "main_input_events env rounds =
     exec [monitor rounds, void_call env LINE_REQUEST_RELEASE, void_call env CHIP_CLOSE,
           return_main 0] started"
proof -
  have "exec (map (checked_call env) startup_calls)
          (init_events_proc\<lparr>events := \<lparr>capacity = max_events, buf_events = []\<rparr>\<rparr>) =
        init_events_proc\<lparr>events := \<lparr>capacity = max_events, buf_events = []\<rparr>,
          trace := startup_calls\<rparr>"
    using assms by (simp add: exec_checked_calls_ok init_events_proc_def)
  then show ?thesis
    unfolding main_input_events_split
    by (simp add: exec_Cons_running init_events_proc_def printf_def signal_SIGINT_def
        dec_debounce_us started_def)
qed

lemma main_input_events_failed:
  assumes "\<not> calls_ok env startup_calls"
  shows "(status (main_input_events env rounds) = Aborted
        \<or> status (main_input_events env rounds) = Killed)
     \<and> set (trace (main_input_events env rounds)) \<subseteq> set startup_calls
     \<and> stdout (main_input_events env rounds) = []
     \<and> \<not> quitting (main_input_events env rounds)
     \<and> \<not> handler_installed (main_input_events env rounds)"
proof -
  let ?s = "init_events_proc\<lparr>events := \<lparr>capacity = max_events, buf_events = []\<rparr>\<rparr>"
  have f: "(status (exec (map (checked_call env) startup_calls) ?s) = Aborted
        \<or> status (exec (map (checked_call env) startup_calls) ?s) = Killed)
     \<and> set (trace (exec (map (checked_call env) startup_calls) ?s)) \<subseteq> set (trace ?s) \<union> set startup_calls
     \<and> stdout (exec (map (checked_call env) startup_calls) ?s) = stdout ?s
     \<and> quitting (exec (map (checked_call env) startup_calls) ?s) = quitting ?s
     \<and> \<not> handler_installed (exec (map (checked_call env) startup_calls) ?s)"
    using assms by (intro exec_checked_calls_fail) (simp_all add: init_events_proc_def)
  then have "main_input_events env rounds = exec (map (checked_call env) startup_calls) ?s"
    unfolding main_input_events_split by (intro exec_stopped) auto
  then show ?thesis
    using f by (simp add: init_events_proc_def)
qed

lemma exec_teardown:
  assumes "status s = Running" "handler_installed s"
  shows "status (exec [void_call env LINE_REQUEST_RELEASE, void_call env CHIP_CLOSE, return_main 0] s) = Exited 0"
    "trace (exec [void_call env LINE_REQUEST_RELEASE, void_call env CHIP_CLOSE, return_main 0] s)
       = trace s @ [LINE_REQUEST_RELEASE, CHIP_CLOSE]"
    "stdout (exec [void_call env LINE_REQUEST_RELEASE, void_call env CHIP_CLOSE, return_main 0] s) = stdout s"
  using assms
  by (simp_all add: exec.simps void_call_def deliver_sigint_def ctrl_c_handler_def
      return_main_def Let_def)


lemma started_proc:
  "status started = Running" "handler_installed started" "\<not> quitting started"
  "capacity (events started) = max_events" "trace started = startup_calls"
  "last_ns started = 0" "stdout started = ''debounce time = 1000 usec'' @ NL"
  by (simp_all add: started_def)

text \<open>After the loop, the teardown runs exactly when the loop was left.\<close>

lemma exec_loop_teardown:
  assumes "status s = Running" "handler_installed s" "capacity (events s) = max_events"
  shows "stdout (exec [monitor rounds, void_call env LINE_REQUEST_RELEASE, void_call env CHIP_CLOSE,
           return_main 0] s) = stdout (monitor rounds s)"
    and "status (monitor rounds s) = Running \<Longrightarrow>
      status (exec [monitor rounds, void_call env LINE_REQUEST_RELEASE, void_call env CHIP_CLOSE,
           return_main 0] s) = Exited 0 \<and>
      trace (exec [monitor rounds, void_call env LINE_REQUEST_RELEASE, void_call env CHIP_CLOSE,
           return_main 0] s) = trace s @ [LINE_REQUEST_RELEASE, CHIP_CLOSE]"
    and "status (monitor rounds s) \<noteq> Running \<Longrightarrow>
      exec [monitor rounds, void_call env LINE_REQUEST_RELEASE, void_call env CHIP_CLOSE,
           return_main 0] s = monitor rounds s"
proof -
  let ?T = "[void_call env LINE_REQUEST_RELEASE, void_call env CHIP_CLOSE, return_main 0]"
  have e: "exec (monitor rounds # ?T) s = exec ?T (monitor rounds s)"
    using assms(1) by (rule exec_Cons_running)
  have m: "trace (monitor rounds s) = trace s" "handler_installed (monitor rounds s)"
    using monitor_outcome [OF assms] by simp_all
  show "stdout (exec (monitor rounds # ?T) s) = stdout (monitor rounds s)"
  proof (cases "status (monitor rounds s) = Running")
    case True
    then show ?thesis unfolding e using m by (simp add: exec_teardown)
  next
    case False
    then show ?thesis unfolding e by (simp add: exec_stopped)
  qed
  show "status (monitor rounds s) = Running \<Longrightarrow>
      status (exec (monitor rounds # ?T) s) = Exited 0 \<and>
      trace (exec (monitor rounds # ?T) s) = trace s @ [LINE_REQUEST_RELEASE, CHIP_CLOSE]"
    unfolding e using m by (simp add: exec_teardown)
  show "status (monitor rounds s) \<noteq> Running \<Longrightarrow> exec (monitor rounds # ?T) s = monitor rounds s"
    unfolding e by (rule exec_stopped)
qed

lemma main_input_events_ok:
  assumes "calls_ok env startup_calls"
  shows "status (main_input_events env rounds) = Exited 0
       \<and> trace (main_input_events env rounds) = startup_calls @ [LINE_REQUEST_RELEASE, CHIP_CLOSE]
     \<or> (status (main_input_events env rounds) = Aborted
          \<or> status (main_input_events env rounds) = Unfinished)
       \<and> trace (main_input_events env rounds) = startup_calls"
proof -
  note main = main_input_events_started [OF assms, of rounds]
  note out = monitor_outcome [OF started_proc(1,2,4), of rounds]
  show ?thesis
  proof (cases "status (monitor rounds started) = Running")
    case True
    then show ?thesis
      unfolding main using exec_loop_teardown(2) [OF started_proc(1,2,4), of rounds env]
      by (simp add: started_proc)
  next
    case False
    then show ?thesis
      unfolding main using exec_loop_teardown(3) [OF started_proc(1,2,4), of rounds env] out
      by (auto simp: started_proc)
  qed
qed

section \<open>input_events.cpp: the deltas of a session\<close>

text \<open>
  The optional delta of the \<open>k\<close>-th event of the stream \<open>all\<close> of reported events, as the
  program prints it: none for the first event, and otherwise what the loop body prints
  with the timestamp of event \<open>k - 1\<close> as the previous timestamp.
\<close>

definition delta_after :: "edge_event list \<Rightarrow> nat \<Rightarrow> nat option" where
  "delta_after all k =
     (if k = 0 then None
      else printed_delta (timestamp_ns (all ! (k - 1))) (timestamp_ns (all ! k)))"

text \<open>
  The text of a session: for each batch the records of its events, which are the events
  \<open>k, k + 1, \<dots>\<close> of the stream, one per line, and then a blank line.
\<close>

fun session_text :: "edge_event list \<Rightarrow> nat \<Rightarrow> edge_event list list \<Rightarrow> string" where
  "session_text all k [] = []"
| "session_text all k (b # bs) =
     concat (map (\<lambda>i. spec_record (all ! i) (delta_after all i) @ NL) [k..<k + length b])
       @ NL @ session_text all (k + length b) bs"

lemma batch_lines_index:
  assumes "p = last (0 # map timestamp_ns pre)"
  shows "map (\<lambda>(q, e). spec_record e (printed_delta q (timestamp_ns e)) @ NL)
           (zip (p # map timestamp_ns b) b) =
         map (\<lambda>i. spec_record ((pre @ b @ suf) ! i) (delta_after (pre @ b @ suf) i) @ NL)
           [length pre..<length pre + length b]"
proof (rule nth_equalityI)
  show "length (map (\<lambda>(q, e). spec_record e (printed_delta q (timestamp_ns e)) @ NL)
           (zip (p # map timestamp_ns b) b)) =
        length (map (\<lambda>i. spec_record ((pre @ b @ suf) ! i) (delta_after (pre @ b @ suf) i) @ NL)
           [length pre..<length pre + length b])"
    by simp
next
  fix j
  assume "j < length (map (\<lambda>(q, e). spec_record e (printed_delta q (timestamp_ns e)) @ NL)
           (zip (p # map timestamp_ns b) b))"
  then have j: "j < length b" by simp
  have ev: "(pre @ b @ suf) ! (length pre + j) = b ! j"
    using j by (simp add: nth_append)
  have prev: "printed_delta ((p # map timestamp_ns b) ! j) (timestamp_ns (b ! j)) =
      delta_after (pre @ b @ suf) (length pre + j)"
  proof (cases j)
    case 0
    show ?thesis
    proof (cases "pre = []")
      case True
      then show ?thesis
        using 0 assms by (simp add: delta_after_def printed_delta_def)
    next
      case False
      then have "(pre @ b @ suf) ! (length pre - 1) = last pre"
        by (simp add: nth_append last_conv_nth)
      moreover have "p = timestamp_ns (last pre)"
        using False assms by (simp add: last_map)
      ultimately show ?thesis
        using 0 False ev by (simp add: delta_after_def)
    qed
  next
    case (Suc i)
    then have "(pre @ b @ suf) ! (length pre + j - 1) = b ! i"
      using j by (simp add: nth_append)
    then show ?thesis
      using Suc j ev by (simp add: delta_after_def)
  qed
  show "map (\<lambda>(q, e). spec_record e (printed_delta q (timestamp_ns e)) @ NL)
           (zip (p # map timestamp_ns b) b) ! j =
        map (\<lambda>i. spec_record ((pre @ b @ suf) ! i) (delta_after (pre @ b @ suf) i) @ NL)
           [length pre..<length pre + length b] ! j"
    using j by (simp add: prev nth_append)
qed

lemma stdout_report_batches:
  assumes "last_ns s = last (0 # map timestamp_ns pre)"
  shows "stdout (report_batches bs s) = stdout s @ session_text (pre @ concat bs) (length pre) bs"
  using assms
proof (induction bs arbitrary: s pre)
  case Nil
  show ?case by simp
next
  case (Cons b bs)
  have l: "last_ns (report_batch b s) = last (0 # map timestamp_ns (pre @ b))"
    using Cons.prems by (cases "b = []") (simp_all add: report_batch_proc)
  have "stdout (report_batches (b # bs) s) =
      stdout (report_batch b s) @ session_text ((pre @ b) @ concat bs) (length (pre @ b)) bs"
    using Cons.IH [OF l] by simp
  moreover have "stdout (report_batch b s) =
      stdout s @ concat (map (\<lambda>i. spec_record ((pre @ b @ concat bs) ! i)
         (delta_after (pre @ b @ concat bs) i) @ NL) [length pre..<length pre + length b]) @ NL"
    using batch_lines_index [OF Cons.prems, of b "concat bs"]
    by (simp add: stdout_report_batch)
  ultimately show ?case
    by simp
qed


lemma stdout_monitor_stop:
  assumes "status s = Running" "handler_installed s" "capacity (events s) = max_events"
    "rest = [] \<or> \<not> ready_round (hd rest) \<or> quitting s"
  shows "stdout (monitor rest s) = stdout s"
proof (cases rest)
  case Nil
  then show ?thesis by simp
next
  case (Cons r rest')
  show ?thesis
  proof (cases "quitting s")
    case True
    then show ?thesis
      using assms(1,2) Cons
      by (simp add: monitor.simps Let_def deliver_sigint_def ctrl_c_handler_def)
  next
    case False
    then have "\<not> ready_round r" using assms(4) Cons by simp
    then show ?thesis
      unfolding Cons using monitor_not_ready [OF assms(1,2) _ assms(3), of r rest'] by blast
  qed
qed

lemma stdout_main_input_events:
  assumes "calls_ok env startup_calls" "list_all ready_round rs"
    "rest = [] \<or> \<not> ready_round (hd rest)"
  shows "stdout (main_input_events env (rs @ rest)) =
     ''debounce time = 1000 usec'' @ NL @ session_text (concat (batches rs)) 0 (batches rs)"
proof -
  let ?s = "report_batches (batches rs) started"
  have ready: "\<forall>r\<in>set rs. ready_round r"
    using assms(2) by (simp add: list_all_iff)
  have m: "monitor (rs @ rest) started = monitor rest ?s"
    using ready by (intro monitor_ready_rounds) (simp_all add: started_proc)
  have "stdout (main_input_events env (rs @ rest)) = stdout (monitor (rs @ rest) started)"
    unfolding main_input_events_started [OF assms(1)]
    by (intro exec_loop_teardown(1)) (simp_all add: started_proc)
  also have "\<dots> = stdout ?s"
    unfolding m using assms(3)
    by (intro stdout_monitor_stop) (simp_all add: report_batches_proc started_proc)
  also have "\<dots> = stdout started @ session_text ([] @ concat (batches rs)) (length ([] :: edge_event list)) (batches rs)"
    by (intro stdout_report_batches) (simp add: started_proc)
  finally show ?thesis
    by (simp add: started_proc)
qed


section \<open>Claims about input_events.cpp: the report\<close>

text \<open>
  Claim C2, as amended. In a session in which the startup succeeds and the rounds \<open>rs\<close>
  each deliver a batch, up to the end of the observed environment or the first round
  that ends the loop, the output is the debounce reminder followed by the text of the
  session: one record per event and a blank line per batch. The record of the first
  event of the stream carries no delta. The record of a later event \<open>k\<close> carries the
  64-bit difference between its timestamp and that of event \<open>k - 1\<close>, also when the two
  events are in different batches, unless the timestamp of event \<open>k - 1\<close> is 0: then it
  carries no delta either, because 0 is how the program marks that no event has been
  reported yet.
\<close>

theorem session_deltas:
  assumes "calls_ok env startup_calls" "list_all ready_round rs"
    "rest = [] \<or> \<not> ready_round (hd rest)"
  shows "stdout (main_input_events env (rs @ rest)) =
       ''debounce time = 1000 usec'' @ NL @ session_text (concat (batches rs)) 0 (batches rs)
     \<and> delta_after (concat (batches rs)) 0 = None
     \<and> (\<forall>k. 0 < k \<longrightarrow> delta_after (concat (batches rs)) k =
          (if timestamp_ns (concat (batches rs) ! (k - 1)) = 0 then None
           else Some (unat (timestamp_ns (concat (batches rs) ! k)
                  - timestamp_ns (concat (batches rs) ! (k - 1))))))"
proof -
  have "stdout (main_input_events env (rs @ rest)) =
       ''debounce time = 1000 usec'' @ NL @ session_text (concat (batches rs)) 0 (batches rs)"
    using assms by (rule stdout_main_input_events)
  then show ?thesis
    by (simp add: delta_after_def printed_delta_def)
qed

text \<open>
  Two batches of one event each: the second event is the first of its batch and still
  carries the delta to the event of the batch before.
\<close>

theorem session_deltas_witness:
  "calls_ok \<lparr>call_fails = (\<lambda>c. False), sigint_at = None\<rparr> startup_calls
   \<and> list_all ready_round
       [\<lparr>sigint_head = False, wait = WAIT_RETURNS 1 0, read_fails = False,
          pending = [\<lparr>global_seqno = 1, line_seqno = 1, line_offset = 23,
                       event_type = RISING_EDGE, timestamp_ns = 1000\<rparr>]\<rparr>,
        \<lparr>sigint_head = False, wait = WAIT_RETURNS 1 0, read_fails = False,
          pending = [\<lparr>global_seqno = 2, line_seqno = 1, line_offset = 24,
                       event_type = FALLING_EDGE, timestamp_ns = 1500\<rparr>]\<rparr>]
   \<and> stdout (main_input_events \<lparr>call_fails = (\<lambda>c. False), sigint_at = None\<rparr>
       [\<lparr>sigint_head = False, wait = WAIT_RETURNS 1 0, read_fails = False,
          pending = [\<lparr>global_seqno = 1, line_seqno = 1, line_offset = 23,
                       event_type = RISING_EDGE, timestamp_ns = 1000\<rparr>]\<rparr>,
        \<lparr>sigint_head = False, wait = WAIT_RETURNS 1 0, read_fails = False,
          pending = [\<lparr>global_seqno = 2, line_seqno = 1, line_offset = 24,
                       event_type = FALLING_EDGE, timestamp_ns = 1500\<rparr>]\<rparr>])
     = ''debounce time = 1000 usec'' @ NL @ ''1:1 pin 23 = 1 @ 1000'' @ NL @ NL
         @ ''2:1 pin 24 = 0 @ 1500 +500'' @ NL @ NL"
  using session_deltas [of "\<lparr>call_fails = (\<lambda>c. False), sigint_at = None\<rparr>"
       "[\<lparr>sigint_head = False, wait = WAIT_RETURNS 1 0, read_fails = False,
          pending = [\<lparr>global_seqno = 1, line_seqno = 1, line_offset = 23,
                       event_type = RISING_EDGE, timestamp_ns = 1000\<rparr>]\<rparr>,
        \<lparr>sigint_head = False, wait = WAIT_RETURNS 1 0, read_fails = False,
          pending = [\<lparr>global_seqno = 2, line_seqno = 1, line_offset = 24,
                       event_type = FALLING_EDGE, timestamp_ns = 1500\<rparr>]\<rparr>]" "[]"]
  by (simp add: calls_ok_def startup_calls_def ready_round_def batches_def max_events_def
      delta_after_def printed_delta_def spec_record_def spec_level_def dec.simps digit_char_def
      upt_rec)

text \<open>
  Claim C2 as stated fails: an event with timestamp 0 is followed by an event that is
  not the first of the session and yet carries no delta. The claimed output, with the
  delta \<open>+5\<close>, is not what the program writes.
\<close>

theorem delta_missing_after_zero_timestamp:
  "stdout (main_input_events \<lparr>call_fails = (\<lambda>c. False), sigint_at = None\<rparr>
       [\<lparr>sigint_head = False, wait = WAIT_RETURNS 1 0, read_fails = False,
          pending = [\<lparr>global_seqno = 1, line_seqno = 1, line_offset = 23,
                       event_type = RISING_EDGE, timestamp_ns = 0\<rparr>,
                     \<lparr>global_seqno = 2, line_seqno = 1, line_offset = 24,
                       event_type = FALLING_EDGE, timestamp_ns = 5\<rparr>]\<rparr>])
     = ''debounce time = 1000 usec'' @ NL @ ''1:1 pin 23 = 1 @ 0'' @ NL
         @ ''2:1 pin 24 = 0 @ 5'' @ NL @ NL
   \<and> stdout (main_input_events \<lparr>call_fails = (\<lambda>c. False), sigint_at = None\<rparr>
       [\<lparr>sigint_head = False, wait = WAIT_RETURNS 1 0, read_fails = False,
          pending = [\<lparr>global_seqno = 1, line_seqno = 1, line_offset = 23,
                       event_type = RISING_EDGE, timestamp_ns = 0\<rparr>,
                     \<lparr>global_seqno = 2, line_seqno = 1, line_offset = 24,
                       event_type = FALLING_EDGE, timestamp_ns = 5\<rparr>]\<rparr>])
     \<noteq> ''debounce time = 1000 usec'' @ NL @ ''1:1 pin 23 = 1 @ 0'' @ NL
         @ ''2:1 pin 24 = 0 @ 5 +5'' @ NL @ NL"
  by (simp add: main_input_events_def exec.simps init_events_proc_def edge_event_buffer_new_def
      checked_call_def printf_def signal_SIGINT_def monitor.simps Let_def max_events_def
      debounce_us_def line_request_read_edge_events_def print_events.simps
      edge_event_buffer_get_num_events_def edge_event_buffer_get_event_def print_event_def
      dec.simps digit_char_def)

lemma report_batches_append:
  "report_batches (bs @ cs) s = report_batches cs (report_batches bs s)"
  by (induction bs arbitrary: s) simp_all

lemma last_ns_report_batches:
  "last_ns (report_batches bs s) = last (last_ns s # map timestamp_ns (concat bs))"
proof (induction bs arbitrary: s)
  case Nil
  show ?case by simp
next
  case (Cons b bs)
  show ?case
    by (cases "b = []") (simp_all add: Cons.IH report_batch_proc)
qed

text \<open>
  The output of a run whose rounds deliver batches up to the end of the observed
  environment, or up to a round that ends the loop, is the output of the reports.
\<close>

lemma stdout_main_input_events_reports:
  assumes "calls_ok env startup_calls" "list_all ready_round rs"
    "rest = [] \<or> \<not> ready_round (hd rest)"
  shows "stdout (main_input_events env (rs @ rest)) = stdout (report_batches (batches rs) started)"
proof -
  let ?s = "report_batches (batches rs) started"
  have ready: "\<forall>r\<in>set rs. ready_round r"
    using assms(2) by (simp add: list_all_iff)
  have m: "monitor (rs @ rest) started = monitor rest ?s"
    using ready by (intro monitor_ready_rounds) (simp_all add: started_proc)
  have "stdout (main_input_events env (rs @ rest)) = stdout (monitor (rs @ rest) started)"
    unfolding main_input_events_started [OF assms(1)]
    by (intro exec_loop_teardown(1)) (simp_all add: started_proc)
  also have "\<dots> = stdout ?s"
    unfolding m using assms(3)
    by (intro stdout_monitor_stop) (simp_all add: report_batches_proc started_proc)
  finally show ?thesis .
qed

text \<open>
  Claim C3. Let the startup succeed, let the rounds \<open>pre\<close> deliver batches, and let the
  next round \<open>r\<close> deliver a batch too: the wait returns 1 and the read succeeds. Then the
  program writes, after everything it has written for \<open>pre\<close>, one record per event of the
  batch that was read, in the order of the batch, each in the format of the
  specification (global and line sequence number, offset, 1 for a rising and 0 for a
  falling edge, timestamp, optional delta) and ended by a newline, and after the last
  record exactly one blank line; a round that ends the loop adds nothing. The batch is
  not empty and has at most \<^const>\<open>max_events\<close> events.
\<close>

theorem batch_report_format:
  assumes "calls_ok env startup_calls" "list_all ready_round pre" "ready_round r"
    "rest = [] \<or> \<not> ready_round (hd rest)"
  shows "stdout (main_input_events env (pre @ r # rest)) =
       stdout (main_input_events env pre)
       @ concat (map (\<lambda>(p, e). spec_record e (printed_delta p (timestamp_ns e)) @ NL)
           (zip (last (0 # map timestamp_ns (concat (batches pre)))
                   # map timestamp_ns (take max_events (pending r)))
              (take max_events (pending r))))
       @ NL
     \<and> length (take max_events (pending r)) \<le> max_events
     \<and> take max_events (pending r) \<noteq> []"
proof -
  let ?b = "take max_events (pending r)"
  let ?s = "report_batches (batches pre) started"
  have all: "list_all ready_round (pre @ [r])"
    using assms(2,3) by simp
  have "stdout (main_input_events env ((pre @ [r]) @ rest)) =
      stdout (report_batches (batches (pre @ [r])) started)"
    using assms(1) all assms(4) by (rule stdout_main_input_events_reports)
  also have "\<dots> = stdout (report_batch ?b ?s)"
    by (simp add: batches_def report_batches_append)
  also have "\<dots> = stdout ?s
      @ concat (map (\<lambda>(p, e). spec_record e (printed_delta p (timestamp_ns e)) @ NL)
          (zip (last_ns ?s # map timestamp_ns ?b) ?b)) @ NL"
    by (rule stdout_report_batch)
  also have "stdout ?s = stdout (main_input_events env (pre @ []))"
    using stdout_main_input_events_reports [OF assms(1,2), of "[]"] by simp
  also have "last_ns ?s = last (0 # map timestamp_ns (concat (batches pre)))"
    by (simp add: last_ns_report_batches started_proc)
  finally have "stdout (main_input_events env (pre @ r # rest)) =
       stdout (main_input_events env pre)
       @ concat (map (\<lambda>(p, e). spec_record e (printed_delta p (timestamp_ns e)) @ NL)
           (zip (last (0 # map timestamp_ns (concat (batches pre))) # map timestamp_ns ?b) ?b))
       @ NL"
    by simp
  moreover have "?b \<noteq> []"
    using assms(3) by (simp add: ready_round_def max_events_def)
  ultimately show ?thesis
    by simp
qed

text \<open>Scenario B of the specification: two events in one batch, the first of the session.\<close>

theorem batch_report_format_witness:
  "calls_ok \<lparr>call_fails = (\<lambda>c. False), sigint_at = None\<rparr> startup_calls
   \<and> list_all ready_round ([] :: round list)
   \<and> ready_round \<lparr>sigint_head = False, wait = WAIT_RETURNS 1 0, read_fails = False,
          pending = [\<lparr>global_seqno = 1, line_seqno = 1, line_offset = 23,
                       event_type = RISING_EDGE, timestamp_ns = 1000\<rparr>,
                     \<lparr>global_seqno = 2, line_seqno = 1, line_offset = 24,
                       event_type = FALLING_EDGE, timestamp_ns = 1500\<rparr>]\<rparr>
   \<and> stdout (main_input_events \<lparr>call_fails = (\<lambda>c. False), sigint_at = None\<rparr>
        [\<lparr>sigint_head = False, wait = WAIT_RETURNS 1 0, read_fails = False,
          pending = [\<lparr>global_seqno = 1, line_seqno = 1, line_offset = 23,
                       event_type = RISING_EDGE, timestamp_ns = 1000\<rparr>,
                     \<lparr>global_seqno = 2, line_seqno = 1, line_offset = 24,
                       event_type = FALLING_EDGE, timestamp_ns = 1500\<rparr>]\<rparr>])
     = ''debounce time = 1000 usec'' @ NL
        @ ''1:1 pin 23 = 1 @ 1000'' @ NL @ ''2:1 pin 24 = 0 @ 1500 +500'' @ NL @ NL"
proof -
  have "stdout (main_input_events \<lparr>call_fails = (\<lambda>c. False), sigint_at = None\<rparr> []) =
      ''debounce time = 1000 usec'' @ NL"
    by (simp add: main_input_events_def exec.simps init_events_proc_def
        edge_event_buffer_new_def checked_call_def printf_def signal_SIGINT_def debounce_us_def
        dec.simps digit_char_def)
  then show ?thesis
    using batch_report_format
     [where env = "\<lparr>call_fails = (\<lambda>c. False), sigint_at = None\<rparr>"
        and pre = "[]"
        and r = "\<lparr>sigint_head = False, wait = WAIT_RETURNS 1 0, read_fails = False,
          pending = [\<lparr>global_seqno = 1, line_seqno = 1, line_offset = 23,
                       event_type = RISING_EDGE, timestamp_ns = 1000\<rparr>,
                     \<lparr>global_seqno = 2, line_seqno = 1, line_offset = 24,
                       event_type = FALLING_EDGE, timestamp_ns = 1500\<rparr>]\<rparr>"
        and rest = "[]"]
    by (simp add: calls_ok_def startup_calls_def ready_round_def batches_def max_events_def
        printed_delta_def spec_record_def spec_level_def dec.simps digit_char_def)
qed

text \<open>A printed number consists of decimal digits only.\<close>

lemma digit_char_digit: "d < 10 \<Longrightarrow> digit_char d \<in> set ''0123456789''"
  unfolding digit_char_def by (rule nth_mem) simp

lemma set_dec: "set (dec n) \<subseteq> set ''0123456789''"
proof (induction n rule: dec.induct)
  case (1 n)
  show ?case
  proof (cases "n < 10")
    case True
    then show ?thesis
      using digit_char_digit [of n] by (subst dec.simps) simp
  next
    case False
    have "n mod 10 < 10" by simp
    then have "digit_char (n mod 10) \<in> set ''0123456789''"
      by (rule digit_char_digit)
    then show ?thesis
      using False "1.IH" by (subst dec.simps) simp
  qed
qed

lemma no_minus_in_dec: "CHR ''-'' \<notin> set (dec n)"
  using set_dec [of n] by auto

text \<open>
  Claim C8. The program has no separate marker for "no previous event": \<^verbatim>\<open>last_ns\<close> is 0
  then. So the record of an event \<open>e1\<close> that is reported right after an event \<open>e0\<close> with
  timestamp 0 carries no delta, whatever was reported before \<open>e0\<close>, both when \<open>e0\<close> and \<open>e1\<close>
  are in the same batch and when \<open>e0\<close> ends a batch, the blank line is printed and \<open>e1\<close> is
  the first event of the next read.
\<close>

theorem no_delta_after_zero_timestamp:
  assumes "timestamp_ns e0 = 0"
  shows "stdout (print_event e1 (print_event e0 s)) =
       stdout (print_event e0 s) @ spec_record e1 None @ NL
     \<and> stdout (print_event e1 ((printf NL (print_event e0 s))\<lparr>events := buf\<rparr>)) =
       stdout (print_event e0 s) @ NL @ spec_record e1 None @ NL"
  using assms by (simp add: stdout_print_event printed_delta_def printf_def)

text \<open>
  Three events with timestamps 1000, 0 and 5: the third is not the first event of the
  session and has no delta.
\<close>

theorem no_delta_after_zero_timestamp_witness:
  "timestamp_ns \<lparr>global_seqno = 2, line_seqno = 1, line_offset = 24,
       event_type = FALLING_EDGE, timestamp_ns = 0\<rparr> = 0
   \<and> stdout (print_event \<lparr>global_seqno = 3, line_seqno = 2, line_offset = 23,
                  event_type = FALLING_EDGE, timestamp_ns = 5\<rparr>
        (print_event \<lparr>global_seqno = 2, line_seqno = 1, line_offset = 24,
                  event_type = FALLING_EDGE, timestamp_ns = 0\<rparr>
           (print_event \<lparr>global_seqno = 1, line_seqno = 1, line_offset = 23,
                  event_type = RISING_EDGE, timestamp_ns = 1000\<rparr> started)))
     = ''debounce time = 1000 usec'' @ NL @ ''1:1 pin 23 = 1 @ 1000'' @ NL
         @ ''2:1 pin 24 = 0 @ 0 +18446744073709550616'' @ NL
         @ ''3:2 pin 23 = 0 @ 5'' @ NL"
  using no_delta_after_zero_timestamp [of
      "\<lparr>global_seqno = 2, line_seqno = 1, line_offset = 24,
                  event_type = FALLING_EDGE, timestamp_ns = 0\<rparr>"
      "\<lparr>global_seqno = 3, line_seqno = 2, line_offset = 23,
                  event_type = FALLING_EDGE, timestamp_ns = 5\<rparr>"
      "print_event \<lparr>global_seqno = 1, line_seqno = 1, line_offset = 23,
                  event_type = RISING_EDGE, timestamp_ns = 1000\<rparr> started"]
  by (simp add: stdout_print_event started_proc printed_delta_def spec_record_def spec_level_def
      dec.simps digit_char_def)

text \<open>
  Claim C9. The delta is the difference of two \<^verbatim>\<open>uint64_t\<close> values. For an event whose
  timestamp is below the previous one, the number printed after the plus sign is the
  difference modulo \<open>2 ^ 64\<close>, that is \<open>2 ^ 64\<close> minus the distance of the two timestamps: a
  positive number, printed without a minus sign.
\<close>

theorem delta_is_unsigned_difference:
  assumes "timestamp_ns e < last_ns s"
  shows "stdout (print_event e s) =
       stdout s @ spec_record e (Some (unat (timestamp_ns e) + 2 ^ 64 - unat (last_ns s))) @ NL
     \<and> int (unat (timestamp_ns e) + 2 ^ 64 - unat (last_ns s)) =
         (uint (timestamp_ns e) - uint (last_ns s)) mod 2 ^ 64
     \<and> 0 < unat (timestamp_ns e) + 2 ^ 64 - unat (last_ns s)
     \<and> CHR ''-'' \<notin> set (dec (unat (timestamp_ns e) + 2 ^ 64 - unat (last_ns s)))"
proof -
  have lt: "unat (timestamp_ns e) < unat (last_ns s)"
    using assms by (simp add: word_less_nat_alt)
  have bound: "unat (last_ns s) < 2 ^ 64"
    using unsigned_less [of "last_ns s", where 'a = nat] by simp
  have nz: "last_ns s \<noteq> 0"
    using lt by (auto simp: unat_eq_0)
  have d: "unat (timestamp_ns e - last_ns s) = unat (timestamp_ns e) + 2 ^ 64 - unat (last_ns s)"
    using lt by (simp add: unat_sub_if')
  have "uint (timestamp_ns e - last_ns s) = (uint (timestamp_ns e) - uint (last_ns s)) mod 2 ^ 64"
    by (simp add: uint_word_ariths)
  then have m: "int (unat (timestamp_ns e) + 2 ^ 64 - unat (last_ns s)) =
      (uint (timestamp_ns e) - uint (last_ns s)) mod 2 ^ 64"
    using d by (metis uint_nat)
  have "stdout (print_event e s) =
      stdout s @ spec_record e (Some (unat (timestamp_ns e - last_ns s))) @ NL"
    using nz by (simp add: stdout_print_event printed_delta_def)
  then show ?thesis
    using d m lt bound no_minus_in_dec by simp
qed

text \<open>Timestamp 5 after timestamp 1000: the delta printed is \<open>2 ^ 64 - 995\<close>.\<close>

theorem delta_is_unsigned_difference_witness:
  "timestamp_ns \<lparr>global_seqno = 2, line_seqno = 1, line_offset = 24,
       event_type = FALLING_EDGE, timestamp_ns = 5\<rparr> < last_ns (started\<lparr>last_ns := 1000\<rparr>)
   \<and> stdout (print_event \<lparr>global_seqno = 2, line_seqno = 1, line_offset = 24,
       event_type = FALLING_EDGE, timestamp_ns = 5\<rparr> (started\<lparr>last_ns := 1000\<rparr>))
     = ''debounce time = 1000 usec'' @ NL @ ''2:1 pin 24 = 0 @ 5 +18446744073709550621'' @ NL"
  using delta_is_unsigned_difference [of
      "\<lparr>global_seqno = 2, line_seqno = 1, line_offset = 24,
       event_type = FALLING_EDGE, timestamp_ns = 5\<rparr>" "started\<lparr>last_ns := 1000\<rparr>"]
  by (simp add: started_def spec_record_def spec_level_def dec.simps digit_char_def)

section \<open>Claims about input_events.cpp: the read\<close>

text \<open>
  Claim C6, against the read as the specification describes it. A read that succeeds
  returns a count \<open>n\<close> with \<open>0 < n\<close>, \<open>n\<close> at most \<^const>\<open>max_events\<close>, which is 32, and at
  most the capacity of the buffer; the buffer then holds \<open>n\<close> events, and the \<^verbatim>\<open>for\<close> loop
  of the program runs its body on the events at the indices \<open>0, \<dots>, n - 1\<close>, in this
  order, and on nothing else.
\<close>

theorem read_count_bounded:
  assumes "line_request_read_edge_events fails pend buf max_events = (n, buf')" "n \<noteq> - 1"
  shows "0 < n \<and> n \<le> int max_events \<and> max_events = 32 \<and> n \<le> int (capacity buf)
     \<and> edge_event_buffer_get_num_events buf' = nat n
     \<and> print_events 0 (s\<lparr>events := buf'\<rparr>) =
         foldl (\<lambda>s i. print_event (buf_events buf' ! i) s) (s\<lparr>events := buf'\<rparr>) [0..<nat n]"
proof -
  let ?b = "take (min max_events (capacity buf)) pend"
  have ok: "\<not> fails" "?b \<noteq> []" and n: "n = int (length ?b)" and b: "buf' = buf\<lparr>buf_events := ?b\<rparr>"
    using assms by (auto simp: line_request_read_edge_events_def Let_def split: if_splits)
  have len: "length (buf_events buf') = nat n"
    using n b by simp
  have "map (nth (buf_events buf')) [0..<nat n] = buf_events buf'"
    unfolding len [symmetric] by (rule map_nth)
  then have "foldl (\<lambda>s e. print_event e s) (s\<lparr>events := buf'\<rparr>) (buf_events buf') =
      foldl (\<lambda>s e. print_event e s) (s\<lparr>events := buf'\<rparr>) (map (nth (buf_events buf')) [0..<nat n])"
    by simp
  then have "print_events 0 (s\<lparr>events := buf'\<rparr>) =
      foldl (\<lambda>s i. print_event (buf_events buf' ! i) s) (s\<lparr>events := buf'\<rparr>) [0..<nat n]"
    by (simp add: print_events_foldl foldl_map)
  moreover have "length ?b \<le> max_events" "length ?b \<le> capacity buf" "0 < length ?b"
    using ok by simp_all
  ultimately show ?thesis
    using n len by (simp add: edge_event_buffer_get_num_events_def max_events_def)
qed

text \<open>Forty pending events: the read returns 32 of them.\<close>

theorem read_count_bounded_witness:
  "line_request_read_edge_events False
      (replicate 40 \<lparr>global_seqno = 1, line_seqno = 1, line_offset = 23,
                      event_type = RISING_EDGE, timestamp_ns = 1000\<rparr>)
      \<lparr>capacity = max_events, buf_events = []\<rparr> max_events
     = (32, \<lparr>capacity = max_events,
             buf_events = replicate 32 \<lparr>global_seqno = 1, line_seqno = 1, line_offset = 23,
                      event_type = RISING_EDGE, timestamp_ns = 1000\<rparr>\<rparr>)
   \<and> (32 :: int) \<noteq> - 1
   \<and> (32 :: int) \<le> int max_events
   \<and> edge_event_buffer_get_num_events \<lparr>capacity = max_events,
             buf_events = replicate 32 \<lparr>global_seqno = 1, line_seqno = 1, line_offset = 23,
                      event_type = RISING_EDGE, timestamp_ns = 1000\<rparr>\<rparr> = nat 32"
proof -
  have rd: "line_request_read_edge_events False
      (replicate 40 \<lparr>global_seqno = 1, line_seqno = 1, line_offset = 23,
                      event_type = RISING_EDGE, timestamp_ns = 1000\<rparr>)
      \<lparr>capacity = max_events, buf_events = []\<rparr> max_events
     = (32, \<lparr>capacity = max_events,
             buf_events = replicate 32 \<lparr>global_seqno = 1, line_seqno = 1, line_offset = 23,
                      event_type = RISING_EDGE, timestamp_ns = 1000\<rparr>\<rparr>)"
    by (simp add: line_request_read_edge_events_def max_events_def)
  have ok: "(32 :: int) \<noteq> - 1"
    by simp
  show ?thesis
    using read_count_bounded [OF rd ok] rd by (simp add: max_events_def)
qed

section \<open>Claims about input_events.cpp: interruption, exit and teardown\<close>

text \<open>
  The wait is interrupted: a SIGINT arrives while the process is blocked in it, or it
  returns, for whatever reason, a negative value with \<^verbatim>\<open>errno\<close> equal to \<^verbatim>\<open>EINTR\<close>.
\<close>

definition interrupted :: "wait_event \<Rightarrow> bool" where
  "interrupted w =
     (case w of SIGINT_WHILE_BLOCKED \<Rightarrow> True | WAIT_RETURNS r2 e \<Rightarrow> r2 < 0 \<and> e = EINTR)"

text \<open>A round in which the interrupt ends the loop.\<close>

lemma monitor_interrupted:
  assumes "status s = Running" "handler_installed s"
    "sigint_head r \<or> interrupted (wait r)"
  shows "status (monitor (r # rest) s) = Running \<and> stdout (monitor (r # rest) s) = stdout s
     \<and> trace (monitor (r # rest) s) = trace s \<and> handler_installed (monitor (r # rest) s)"
  using assms
  by (cases "wait r")
     (auto simp: monitor.simps Let_def deliver_sigint_def ctrl_c_handler_def interrupted_def)

lemma main_input_events_interrupted:
  assumes "calls_ok env startup_calls" "list_all ready_round pre"
    "sigint_head r \<or> interrupted (wait r)"
  shows "status (main_input_events env (pre @ r # rest)) = Exited 0"
    "trace (main_input_events env (pre @ r # rest)) =
       startup_calls @ [LINE_REQUEST_RELEASE, CHIP_CLOSE]"
    "stdout (main_input_events env (pre @ r # rest)) = stdout (main_input_events env pre)"
proof -
  let ?s = "report_batches (batches pre) started"
  have ready: "\<forall>r\<in>set pre. ready_round r"
    using assms(2) by (simp add: list_all_iff)
  have s: "status ?s = Running" "handler_installed ?s" "trace ?s = startup_calls"
    by (simp_all add: report_batches_proc started_proc)
  have m: "monitor (pre @ r # rest) started = monitor (r # rest) ?s"
    using ready by (intro monitor_ready_rounds) (simp_all add: started_proc)
  note i = monitor_interrupted [OF s(1,2) assms(3), of rest]
  have run: "status (monitor (pre @ r # rest) started) = Running"
    unfolding m using i by simp
  note t = exec_loop_teardown(2) [OF started_proc(1,2,4) run, of env]
  show "status (main_input_events env (pre @ r # rest)) = Exited 0"
    unfolding main_input_events_started [OF assms(1)] using t by simp
  show "trace (main_input_events env (pre @ r # rest)) =
       startup_calls @ [LINE_REQUEST_RELEASE, CHIP_CLOSE]"
    unfolding main_input_events_started [OF assms(1)] using t by (simp add: started_proc)
  have "stdout (main_input_events env (pre @ r # rest)) = stdout (monitor (pre @ r # rest) started)"
    unfolding main_input_events_started [OF assms(1)]
    by (intro exec_loop_teardown(1)) (simp_all add: started_proc)
  also have "\<dots> = stdout ?s"
    unfolding m using i by simp
  also have "\<dots> = stdout (main_input_events env (pre @ []))"
    using stdout_main_input_events [OF assms(1,2), of "[]"]
      stdout_report_batches [of started "[]" "batches pre"]
    by (simp add: started_proc)
  finally show "stdout (main_input_events env (pre @ r # rest)) = stdout (main_input_events env pre)"
    by simp
qed

text \<open>
  Claim C4. When the startup has succeeded, some rounds have delivered batches and then
  the wait is interrupted (a SIGINT arrives while the process is blocked in it), the
  wait returns a negative value with \<^verbatim>\<open>errno\<close> equal to \<^verbatim>\<open>EINTR\<close>, which is the condition
  of the \<^verbatim>\<open>break\<close> and not a failure: the process does not abort, it releases the request,
  closes the chip and returns 0. Its output is the output up to the interruption:
  nothing is written for the interruption, and no record of a later round.
\<close>

theorem sigint_during_wait_is_interrupted:
  assumes "calls_ok env startup_calls" "list_all ready_round pre"
    "\<not> sigint_head r" "interrupted (wait r)"
  shows "(case line_request_wait_edge_events (wait r) s of
            (r2, errno, s') \<Rightarrow> r2 < 0 \<and> errno = EINTR)
     \<and> status (main_input_events env (pre @ r # rest)) = Exited 0
     \<and> trace (main_input_events env (pre @ r # rest)) =
         startup_calls @ [LINE_REQUEST_RELEASE, CHIP_CLOSE]
     \<and> stdout (main_input_events env (pre @ r # rest)) = stdout (main_input_events env pre)"
proof -
  have "case line_request_wait_edge_events (wait r) s of
          (r2, errno, s') \<Rightarrow> r2 < 0 \<and> errno = EINTR"
    using assms(4) by (cases "wait r") (simp_all add: interrupted_def)
  then show ?thesis
    using assms(1,2,4) main_input_events_interrupted [of env pre r rest] by simp
qed

text \<open>One batch, the interruption, and a round that is never reached.\<close>

theorem sigint_during_wait_is_interrupted_witness:
  "calls_ok \<lparr>call_fails = (\<lambda>c. False), sigint_at = None\<rparr> startup_calls
   \<and> list_all ready_round
        [\<lparr>sigint_head = False, wait = WAIT_RETURNS 1 0, read_fails = False,
          pending = [\<lparr>global_seqno = 1, line_seqno = 1, line_offset = 23,
                       event_type = RISING_EDGE, timestamp_ns = 1000\<rparr>]\<rparr>]
   \<and> interrupted
        (wait \<lparr>sigint_head = False, wait = SIGINT_WHILE_BLOCKED, read_fails = False, pending = []\<rparr>)
   \<and> status (main_input_events \<lparr>call_fails = (\<lambda>c. False), sigint_at = None\<rparr>
        [\<lparr>sigint_head = False, wait = WAIT_RETURNS 1 0, read_fails = False,
          pending = [\<lparr>global_seqno = 1, line_seqno = 1, line_offset = 23,
                       event_type = RISING_EDGE, timestamp_ns = 1000\<rparr>]\<rparr>,
         \<lparr>sigint_head = False, wait = SIGINT_WHILE_BLOCKED, read_fails = False, pending = []\<rparr>,
         \<lparr>sigint_head = False, wait = WAIT_RETURNS 1 0, read_fails = False,
          pending = [\<lparr>global_seqno = 2, line_seqno = 1, line_offset = 24,
                       event_type = FALLING_EDGE, timestamp_ns = 1500\<rparr>]\<rparr>]) = Exited 0
   \<and> stdout (main_input_events \<lparr>call_fails = (\<lambda>c. False), sigint_at = None\<rparr>
        [\<lparr>sigint_head = False, wait = WAIT_RETURNS 1 0, read_fails = False,
          pending = [\<lparr>global_seqno = 1, line_seqno = 1, line_offset = 23,
                       event_type = RISING_EDGE, timestamp_ns = 1000\<rparr>]\<rparr>,
         \<lparr>sigint_head = False, wait = SIGINT_WHILE_BLOCKED, read_fails = False, pending = []\<rparr>,
         \<lparr>sigint_head = False, wait = WAIT_RETURNS 1 0, read_fails = False,
          pending = [\<lparr>global_seqno = 2, line_seqno = 1, line_offset = 24,
                       event_type = FALLING_EDGE, timestamp_ns = 1500\<rparr>]\<rparr>])
      = stdout (main_input_events \<lparr>call_fails = (\<lambda>c. False), sigint_at = None\<rparr>
        [\<lparr>sigint_head = False, wait = WAIT_RETURNS 1 0, read_fails = False,
          pending = [\<lparr>global_seqno = 1, line_seqno = 1, line_offset = 23,
                       event_type = RISING_EDGE, timestamp_ns = 1000\<rparr>]\<rparr>])"
  using sigint_during_wait_is_interrupted
     [where env = "\<lparr>call_fails = (\<lambda>c. False), sigint_at = None\<rparr>"
        and pre = "[\<lparr>sigint_head = False, wait = WAIT_RETURNS 1 0, read_fails = False,
          pending = [\<lparr>global_seqno = 1, line_seqno = 1, line_offset = 23,
                       event_type = RISING_EDGE, timestamp_ns = 1000\<rparr>]\<rparr>]"
        and r = "\<lparr>sigint_head = False, wait = SIGINT_WHILE_BLOCKED, read_fails = False, pending = []\<rparr>"
        and rest = "[\<lparr>sigint_head = False, wait = WAIT_RETURNS 1 0, read_fails = False,
          pending = [\<lparr>global_seqno = 2, line_seqno = 1, line_offset = 24,
                       event_type = FALLING_EDGE, timestamp_ns = 1500\<rparr>]\<rparr>]"]
  by (simp add: calls_ok_def startup_calls_def ready_round_def interrupted_def)

text \<open>
  Claim C7. When the startup has succeeded and, after some rounds that deliver batches,
  the interrupt is noticed, either by the flag at the loop condition or by the
  interrupted wait, the process releases the request, then closes the chip, and
  \<^verbatim>\<open>main\<close> returns 0.
\<close>

theorem interrupt_exits_with_success:
  assumes "calls_ok env startup_calls" "list_all ready_round pre"
    "sigint_head r \<or> interrupted (wait r)"
  shows "status (main_input_events env (pre @ r # rest)) = Exited 0
     \<and> trace (main_input_events env (pre @ r # rest)) =
         startup_calls @ [LINE_REQUEST_RELEASE, CHIP_CLOSE]"
  using main_input_events_interrupted(1,2) [OF assms] by simp

text \<open>One batch, then a SIGINT that is seen at the loop condition.\<close>

theorem interrupt_exits_with_success_witness:
  "calls_ok \<lparr>call_fails = (\<lambda>c. False), sigint_at = None\<rparr> startup_calls
   \<and> list_all ready_round
        [\<lparr>sigint_head = False, wait = WAIT_RETURNS 1 0, read_fails = False,
          pending = [\<lparr>global_seqno = 1, line_seqno = 1, line_offset = 23,
                       event_type = RISING_EDGE, timestamp_ns = 1000\<rparr>]\<rparr>]
   \<and> sigint_head \<lparr>sigint_head = True, wait = WAIT_RETURNS 1 0, read_fails = False, pending = []\<rparr>
   \<and> status (main_input_events \<lparr>call_fails = (\<lambda>c. False), sigint_at = None\<rparr>
        [\<lparr>sigint_head = False, wait = WAIT_RETURNS 1 0, read_fails = False,
          pending = [\<lparr>global_seqno = 1, line_seqno = 1, line_offset = 23,
                       event_type = RISING_EDGE, timestamp_ns = 1000\<rparr>]\<rparr>,
         \<lparr>sigint_head = True, wait = WAIT_RETURNS 1 0, read_fails = False, pending = []\<rparr>])
      = Exited 0
   \<and> trace (main_input_events \<lparr>call_fails = (\<lambda>c. False), sigint_at = None\<rparr>
        [\<lparr>sigint_head = False, wait = WAIT_RETURNS 1 0, read_fails = False,
          pending = [\<lparr>global_seqno = 1, line_seqno = 1, line_offset = 23,
                       event_type = RISING_EDGE, timestamp_ns = 1000\<rparr>]\<rparr>,
         \<lparr>sigint_head = True, wait = WAIT_RETURNS 1 0, read_fails = False, pending = []\<rparr>])
      = [EDGE_EVENT_BUFFER_NEW, LINE_SETTINGS_NEW, LINE_CONFIG_NEW, LINE_CONFIG_ADD_LINE_SETTINGS,
         CHIP_OPEN, REQUEST_CONFIG_NEW, CHIP_REQUEST_LINES, LINE_REQUEST_RELEASE, CHIP_CLOSE]"
  using interrupt_exits_with_success [of "\<lparr>call_fails = (\<lambda>c. False), sigint_at = None\<rparr>"
        "[\<lparr>sigint_head = False, wait = WAIT_RETURNS 1 0, read_fails = False,
          pending = [\<lparr>global_seqno = 1, line_seqno = 1, line_offset = 23,
                       event_type = RISING_EDGE, timestamp_ns = 1000\<rparr>]\<rparr>]"
        "\<lparr>sigint_head = True, wait = WAIT_RETURNS 1 0, read_fails = False, pending = []\<rparr>" "[]"]
  by (simp add: calls_ok_def startup_calls_def ready_round_def)





text \<open>
  A round with a fatal error: no SIGINT before the loop condition, and either the wait
  returns something other than 1 that is not an interruption, or it returns 1 and the
  read fails or finds nothing.
\<close>

definition fatal_round :: "round \<Rightarrow> bool" where
  "fatal_round r \<longleftrightarrow>
     \<not> sigint_head r
     \<and> (case wait r of
          SIGINT_WHILE_BLOCKED \<Rightarrow> False
        | WAIT_RETURNS r2 e \<Rightarrow>
            (\<not> (r2 < 0 \<and> e = EINTR) \<and> r2 \<noteq> 1)
            \<or> (r2 = 1 \<and> (read_fails r \<or> pending r = [])))"

lemma monitor_fatal:
  assumes "status s = Running" "\<not> quitting s" "fatal_round r"
  shows "status (monitor (r # rest) s) = Aborted \<and> trace (monitor (r # rest) s) = trace s
     \<and> stdout (monitor (r # rest) s) = stdout s"
  using assms
  by (cases "wait r")
     (auto simp: monitor.simps fatal_round_def Let_def line_request_read_edge_events_def)

lemma main_input_events_fatal:
  assumes "calls_ok env startup_calls" "list_all ready_round pre" "fatal_round r"
  shows "status (main_input_events env (pre @ r # rest)) = Aborted
     \<and> trace (main_input_events env (pre @ r # rest)) = startup_calls"
proof -
  let ?s = "report_batches (batches pre) started"
  have ready: "\<forall>r\<in>set pre. ready_round r"
    using assms(2) by (simp add: list_all_iff)
  have s: "status ?s = Running" "\<not> quitting ?s" "trace ?s = startup_calls"
    by (simp_all add: report_batches_proc started_proc)
  have m: "monitor (pre @ r # rest) started = monitor (r # rest) ?s"
    using ready by (intro monitor_ready_rounds) (simp_all add: started_proc)
  note f = monitor_fatal [OF s(1,2) assms(3), of rest]
  have "status (monitor (pre @ r # rest) started) \<noteq> Running"
    unfolding m using f by simp
  then have "main_input_events env (pre @ r # rest) = monitor (pre @ r # rest) started"
    unfolding main_input_events_started [OF assms(1)]
    by (intro exec_loop_teardown(3)) (simp_all add: started_proc)
  then show ?thesis
    unfolding m using f s(3) by simp
qed

lemma exec_checked_calls_aborted:
  "sigint_at env = None \<Longrightarrow> \<not> calls_ok env cs \<Longrightarrow> status s = Running \<Longrightarrow>
     status (exec (map (checked_call env) cs) s) = Aborted"
proof (induction cs arbitrary: s)
  case Nil
  then show ?case by (simp add: calls_ok_def)
next
  case (Cons c cs)
  have unfold: "exec (map (checked_call env) (c # cs)) s =
      exec (map (checked_call env) cs) (checked_call env c s)"
    using Cons.prems(3) by (simp add: exec_Cons_running)
  show ?case
  proof (cases "call_fails env c")
    case True
    then have a: "status (checked_call env c s) = Aborted"
      using Cons.prems(1,3) by (simp add: checked_call_def)
    then have "exec (map (checked_call env) cs) (checked_call env c s) = checked_call env c s"
      by (intro exec_stopped) simp
    then show ?thesis
      unfolding unfold using a by simp
  next
    case False
    then have step: "checked_call env c s = s\<lparr>trace := trace s @ [c]\<rparr>"
      using Cons.prems(1,3) by (simp add: checked_call_def)
    have "\<not> calls_ok env cs"
      using Cons.prems(1,2) False by (simp add: calls_ok_def)
    then show ?thesis
      unfolding unfold step using Cons.prems by (intro Cons.IH) simp_all
  qed
qed

lemma main_input_events_startup_aborted:
  assumes "sigint_at env = None" "\<not> calls_ok env startup_calls"
  shows "status (main_input_events env rounds) = Aborted"
proof -
  let ?s = "init_events_proc\<lparr>events := \<lparr>capacity = max_events, buf_events = []\<rparr>\<rparr>"
  have a: "status (exec (map (checked_call env) startup_calls) ?s) = Aborted"
    using assms by (intro exec_checked_calls_aborted) (simp_all add: init_events_proc_def)
  then have "main_input_events env rounds = exec (map (checked_call env) startup_calls) ?s"
    unfolding main_input_events_split by (intro exec_stopped) simp
  then show ?thesis
    using a by simp
qed

text \<open>
  Claim C1, as amended. A run of input_events.cpp ends in one of two ways. Either
  \<^verbatim>\<open>main\<close> returns 0, and then the request was released and after it the chip was closed,
  as the last two calls; or the process was aborted by a failed \<^verbatim>\<open>assert\<close>, killed by an
  early SIGINT, or is still blocked in the wait, and then neither the release nor the
  close was made. A fatal error does abort: when the startup has succeeded and, after
  rounds that deliver batches, the wait returns a value other than 1 that is not an
  interruption, or the read fails, the process is aborted with the chip open and the
  lines requested, and without release or close. So does a startup call that fails
  when no SIGINT arrives.
\<close>

theorem input_events_teardown_iff_return:
  "(status (main_input_events env rounds) = Exited 0
      \<and> trace (main_input_events env rounds) = startup_calls @ [LINE_REQUEST_RELEASE, CHIP_CLOSE]
    \<or> (status (main_input_events env rounds) = Aborted
         \<or> status (main_input_events env rounds) = Killed
         \<or> status (main_input_events env rounds) = Unfinished)
      \<and> LINE_REQUEST_RELEASE \<notin> set (trace (main_input_events env rounds))
      \<and> CHIP_CLOSE \<notin> set (trace (main_input_events env rounds)))
   \<and> (calls_ok env startup_calls \<and> list_all ready_round pre \<and> fatal_round r \<longrightarrow>
        status (main_input_events env (pre @ r # rest)) = Aborted
        \<and> trace (main_input_events env (pre @ r # rest)) = startup_calls
        \<and> CHIP_OPEN \<in> set (trace (main_input_events env (pre @ r # rest)))
        \<and> CHIP_REQUEST_LINES \<in> set (trace (main_input_events env (pre @ r # rest)))
        \<and> LINE_REQUEST_RELEASE \<notin> set (trace (main_input_events env (pre @ r # rest)))
        \<and> CHIP_CLOSE \<notin> set (trace (main_input_events env (pre @ r # rest))))
   \<and> (sigint_at env = None \<and> \<not> calls_ok env startup_calls \<longrightarrow>
        status (main_input_events env rounds) = Aborted
        \<and> LINE_REQUEST_RELEASE \<notin> set (trace (main_input_events env rounds))
        \<and> CHIP_CLOSE \<notin> set (trace (main_input_events env rounds)))"
proof (intro conjI impI)
  show "status (main_input_events env rounds) = Exited 0
      \<and> trace (main_input_events env rounds) = startup_calls @ [LINE_REQUEST_RELEASE, CHIP_CLOSE]
    \<or> (status (main_input_events env rounds) = Aborted
         \<or> status (main_input_events env rounds) = Killed
         \<or> status (main_input_events env rounds) = Unfinished)
      \<and> LINE_REQUEST_RELEASE \<notin> set (trace (main_input_events env rounds))
      \<and> CHIP_CLOSE \<notin> set (trace (main_input_events env rounds))"
  proof (cases "calls_ok env startup_calls")
    case True
    then show ?thesis
      using main_input_events_ok [of env rounds] by (auto simp: startup_calls_def)
  next
    case False
    then show ?thesis
      using main_input_events_failed [of env rounds] by (auto simp: startup_calls_def)
  qed
next
  assume "calls_ok env startup_calls \<and> list_all ready_round pre \<and> fatal_round r"
  then have f: "status (main_input_events env (pre @ r # rest)) = Aborted
     \<and> trace (main_input_events env (pre @ r # rest)) = startup_calls"
    using main_input_events_fatal [of env pre r rest] by simp
  then show "status (main_input_events env (pre @ r # rest)) = Aborted"
    "trace (main_input_events env (pre @ r # rest)) = startup_calls"
    by simp_all
  show "CHIP_OPEN \<in> set (trace (main_input_events env (pre @ r # rest)))"
    "CHIP_REQUEST_LINES \<in> set (trace (main_input_events env (pre @ r # rest)))"
    "LINE_REQUEST_RELEASE \<notin> set (trace (main_input_events env (pre @ r # rest)))"
    "CHIP_CLOSE \<notin> set (trace (main_input_events env (pre @ r # rest)))"
    using f by (simp_all add: startup_calls_def)
next
  assume a: "sigint_at env = None \<and> \<not> calls_ok env startup_calls"
  then show "status (main_input_events env rounds) = Aborted"
    using main_input_events_startup_aborted [of env rounds] by simp
  show "LINE_REQUEST_RELEASE \<notin> set (trace (main_input_events env rounds))"
    "CHIP_CLOSE \<notin> set (trace (main_input_events env rounds))"
    using a main_input_events_failed [of env rounds] by (auto simp: startup_calls_def)
qed

text \<open>One batch, then a wait that returns 0: the process aborts and holds both resources.\<close>

theorem input_events_teardown_iff_return_witness:
  "calls_ok \<lparr>call_fails = (\<lambda>c. False), sigint_at = None\<rparr> startup_calls
   \<and> list_all ready_round
        [\<lparr>sigint_head = False, wait = WAIT_RETURNS 1 0, read_fails = False,
          pending = [\<lparr>global_seqno = 1, line_seqno = 1, line_offset = 23,
                       event_type = RISING_EDGE, timestamp_ns = 1000\<rparr>]\<rparr>]
   \<and> fatal_round \<lparr>sigint_head = False, wait = WAIT_RETURNS 0 0, read_fails = False, pending = []\<rparr>
   \<and> status (main_input_events \<lparr>call_fails = (\<lambda>c. False), sigint_at = None\<rparr>
        [\<lparr>sigint_head = False, wait = WAIT_RETURNS 1 0, read_fails = False,
          pending = [\<lparr>global_seqno = 1, line_seqno = 1, line_offset = 23,
                       event_type = RISING_EDGE, timestamp_ns = 1000\<rparr>]\<rparr>,
         \<lparr>sigint_head = False, wait = WAIT_RETURNS 0 0, read_fails = False, pending = []\<rparr>])
      = Aborted
   \<and> trace (main_input_events \<lparr>call_fails = (\<lambda>c. False), sigint_at = None\<rparr>
        [\<lparr>sigint_head = False, wait = WAIT_RETURNS 1 0, read_fails = False,
          pending = [\<lparr>global_seqno = 1, line_seqno = 1, line_offset = 23,
                       event_type = RISING_EDGE, timestamp_ns = 1000\<rparr>]\<rparr>,
         \<lparr>sigint_head = False, wait = WAIT_RETURNS 0 0, read_fails = False, pending = []\<rparr>])
      = [EDGE_EVENT_BUFFER_NEW, LINE_SETTINGS_NEW, LINE_CONFIG_NEW, LINE_CONFIG_ADD_LINE_SETTINGS,
         CHIP_OPEN, REQUEST_CONFIG_NEW, CHIP_REQUEST_LINES]"
  using input_events_teardown_iff_return
     [where env = "\<lparr>call_fails = (\<lambda>c. False), sigint_at = None\<rparr>"
        and pre = "[\<lparr>sigint_head = False, wait = WAIT_RETURNS 1 0, read_fails = False,
          pending = [\<lparr>global_seqno = 1, line_seqno = 1, line_offset = 23,
                       event_type = RISING_EDGE, timestamp_ns = 1000\<rparr>]\<rparr>]"
        and r = "\<lparr>sigint_head = False, wait = WAIT_RETURNS 0 0, read_fails = False, pending = []\<rparr>"
        and rest = "[]" and rounds = "[]"]
  by (simp add: calls_ok_def startup_calls_def ready_round_def fatal_round_def EINTR_def)

text \<open>
  Claim C1 as stated fails on the fatal paths: with the chip open and the lines
  requested, a wait that fails with an \<^verbatim>\<open>errno\<close> other than \<^verbatim>\<open>EINTR\<close> (here 5, \<^verbatim>\<open>EIO\<close>), or a
  read that fails, aborts the process; the request is not released and the chip is not
  closed.
\<close>

theorem fatal_error_skips_teardown:
  "status (main_input_events \<lparr>call_fails = (\<lambda>c. False), sigint_at = None\<rparr>
      [\<lparr>sigint_head = False, wait = WAIT_RETURNS (- 1) 5, read_fails = False, pending = []\<rparr>]) = Aborted
   \<and> trace (main_input_events \<lparr>call_fails = (\<lambda>c. False), sigint_at = None\<rparr>
      [\<lparr>sigint_head = False, wait = WAIT_RETURNS (- 1) 5, read_fails = False, pending = []\<rparr>])
     = [EDGE_EVENT_BUFFER_NEW, LINE_SETTINGS_NEW, LINE_CONFIG_NEW, LINE_CONFIG_ADD_LINE_SETTINGS,
        CHIP_OPEN, REQUEST_CONFIG_NEW, CHIP_REQUEST_LINES]
   \<and> status (main_input_events \<lparr>call_fails = (\<lambda>c. False), sigint_at = None\<rparr>
      [\<lparr>sigint_head = False, wait = WAIT_RETURNS 1 0, read_fails = True, pending = []\<rparr>]) = Aborted
   \<and> trace (main_input_events \<lparr>call_fails = (\<lambda>c. False), sigint_at = None\<rparr>
      [\<lparr>sigint_head = False, wait = WAIT_RETURNS 1 0, read_fails = True, pending = []\<rparr>])
     = [EDGE_EVENT_BUFFER_NEW, LINE_SETTINGS_NEW, LINE_CONFIG_NEW, LINE_CONFIG_ADD_LINE_SETTINGS,
        CHIP_OPEN, REQUEST_CONFIG_NEW, CHIP_REQUEST_LINES]"
  by (simp add: main_input_events_def exec.simps init_events_proc_def edge_event_buffer_new_def
      checked_call_def printf_def signal_SIGINT_def monitor.simps EINTR_def Let_def
      line_request_read_edge_events_def)

section \<open>The other programs\<close>

text \<open>The state in which \<^verbatim>\<open>main\<close> of the programs without further long-lived locals starts.\<close>

definition init_proc :: proc where
  "init_proc =
     \<lparr>quitting = False, handler_installed = False, stdout = [], trace = [], status = Running\<rparr>"

subsection \<open>output1_simple.cpp\<close>

text \<open>
  The \<^verbatim>\<open>while (!quitting)\<close> loop of output1_simple.cpp (lines 128 to 138): after the sleep
  the line is set to \<^verbatim>\<open>code_values[code]\<close> and \<^verbatim>\<open>code\<close> flips between 0 and 1. The list
  says, for each evaluation of the loop condition, whether a SIGINT was delivered before
  it.
\<close>

definition code_values1 :: "line_value list" where
  "code_values1 = [INACTIVE, ACTIVE]"

fun toggle1 :: "bool list \<Rightarrow> nat \<Rightarrow> proc \<Rightarrow> proc" where
  "toggle1 [] code s = (if quitting s then s else s\<lparr>status := Unfinished\<rparr>)"
| "toggle1 (sig # sigs) code s =
     (let s1 = (if sig then deliver_sigint s else s) in
      if status s1 \<noteq> Running \<or> quitting s1 then s1
      else toggle1 sigs (1 - code)
             (s1\<lparr>trace := trace s1 @ [LINE_REQUEST_SET_VALUE (code_values1 ! code)]\<rparr>))"

text \<open>
  \<^verbatim>\<open>main\<close> of output1_simple.cpp. The chip is closed right after the line request
  (line 116), before the handler is installed and the loop is entered.
\<close>

definition main_output1_simple :: "env \<Rightarrow> bool list \<Rightarrow> proc" where
  "main_output1_simple env sigs =
     exec
       [checked_call env LINE_CONFIG_NEW,
        checked_call env LINE_SETTINGS_NEW,
        checked_call env LINE_CONFIG_ADD_LINE_SETTINGS,
        checked_call env LINE_CONFIG_SET_OUTPUT_VALUES,
        checked_call env CHIP_OPEN,
        checked_call env REQUEST_CONFIG_NEW,
        checked_call env CHIP_REQUEST_LINES,
        void_call env CHIP_CLOSE,
        signal_SIGINT,
        toggle1 sigs 0,
        void_call env (LINE_REQUEST_SET_VALUE (code_values1 ! 0)),
        void_call env LINE_REQUEST_RELEASE,
        return_main 0]
       init_proc"

subsection \<open>output_simple.cpp\<close>

text \<open>The table \<^verbatim>\<open>code_values\<close> of the two-bit counter and its loop (lines 157 to 168).\<close>

definition code_max :: nat where
  "code_max = 4"

definition code_values2 :: "line_value list list" where
  "code_values2 =
     [[INACTIVE, INACTIVE], [ACTIVE, INACTIVE], [INACTIVE, ACTIVE], [ACTIVE, ACTIVE]]"

fun count2 :: "bool list \<Rightarrow> nat \<Rightarrow> proc \<Rightarrow> proc" where
  "count2 [] code s = (if quitting s then s else s\<lparr>status := Unfinished\<rparr>)"
| "count2 (sig # sigs) code s =
     (let s1 = (if sig then deliver_sigint s else s) in
      if status s1 \<noteq> Running \<or> quitting s1 then s1
      else count2 sigs (if code + 1 \<ge> code_max then 0 else code + 1)
             (s1\<lparr>trace := trace s1 @ [LINE_REQUEST_SET_VALUES (code_values2 ! code)]\<rparr>))"

definition main_output_simple :: "env \<Rightarrow> bool list \<Rightarrow> proc" where
  "main_output_simple env sigs =
     exec
       [checked_call env LINE_CONFIG_NEW,
        checked_call env LINE_SETTINGS_NEW,
        checked_call env LINE_CONFIG_ADD_LINE_SETTINGS,
        checked_call env LINE_CONFIG_SET_OUTPUT_VALUES,
        checked_call env CHIP_OPEN,
        checked_call env REQUEST_CONFIG_NEW,
        checked_call env CHIP_REQUEST_LINES,
        signal_SIGINT,
        count2 sigs 0,
        void_call env (LINE_REQUEST_SET_VALUES (code_values2 ! 0)),
        void_call env LINE_REQUEST_RELEASE,
        void_call env CHIP_CLOSE,
        return_main 0]
       init_proc"

subsection \<open>input_simple.cpp\<close>

text \<open>
  The arrays \<^verbatim>\<open>values_old\<close> and \<^verbatim>\<open>values_new\<close> hold one value for each of the two requested
  lines; \<^verbatim>\<open>values_old\<close> lives across the iterations.
\<close>

record simple_proc = proc +
  values_old :: "line_value list"

definition offsets :: "nat list" where
  "offsets = [23, 24]"

text \<open>
  One iteration as the environment drives it: whether a SIGINT was delivered before the
  loop condition, whether \<^verbatim>\<open>gpiod_line_request_get_values\<close> fails, and the two values it
  writes to \<^verbatim>\<open>values_new\<close>.
\<close>

record poll_round =
  sigint_poll :: bool
  get_values_fails :: bool
  values_read :: "line_value list"

text \<open>The body of the \<^verbatim>\<open>for\<close> loop of lines 144 to 150 for the index \<open>i\<close>.\<close>

definition print_change :: "line_value list \<Rightarrow> nat \<Rightarrow> simple_proc \<Rightarrow> simple_proc" where
  "print_change values_new i s =
     (if values_old s ! i \<noteq> values_new ! i
      then (printf (''pin '' @ dec (offsets ! i) @ '' = ''
                     @ dec (if values_new ! i = ACTIVE then 1 else 0) @ NL) s)
             \<lparr>values_old := (values_old s)[i := values_new ! i]\<rparr>
      else s)"

text \<open>The \<^verbatim>\<open>while (!quitting)\<close> loop of lines 138 to 154.\<close>

fun poll :: "poll_round list \<Rightarrow> simple_proc \<Rightarrow> simple_proc" where
  "poll [] s = (if quitting s then s else s\<lparr>status := Unfinished\<rparr>)"
| "poll (r # rs) s =
     (let s1 = (if sigint_poll r then deliver_sigint s else s) in
      if status s1 \<noteq> Running \<or> quitting s1 then s1
      else if get_values_fails r then s1\<lparr>status := Aborted\<rparr>
      else poll rs
             (print_change (values_read r) 1
                (print_change (values_read r) 0
                   (s1\<lparr>trace := trace s1 @ [LINE_REQUEST_GET_VALUES]\<rparr>))))"

definition init_simple_proc :: simple_proc where
  "init_simple_proc =
     \<lparr>quitting = False, handler_installed = False, stdout = [], trace = [], status = Running,
      values_old = [INACTIVE, INACTIVE]\<rparr>"

text \<open>
  \<^verbatim>\<open>main\<close> of input_simple.cpp; \<open>first\<close> are the values that the call of line 135 reads.
\<close>

definition main_input_simple :: "env \<Rightarrow> line_value list \<Rightarrow> poll_round list \<Rightarrow> simple_proc" where
  "main_input_simple env first rounds =
     exec
       [checked_call env LINE_SETTINGS_NEW,
        checked_call env LINE_CONFIG_NEW,
        checked_call env LINE_CONFIG_ADD_LINE_SETTINGS,
        checked_call env CHIP_OPEN,
        checked_call env REQUEST_CONFIG_NEW,
        checked_call env CHIP_REQUEST_LINES,
        printf (''debounce time = '' @ dec debounce_us @ '' usec'' @ NL),
        signal_SIGINT,
        checked_call env LINE_REQUEST_GET_VALUES,
        (\<lambda>s. s\<lparr>values_old := first\<rparr>),
        poll rounds,
        void_call env LINE_REQUEST_RELEASE,
        void_call env CHIP_CLOSE,
        return_main 0]
       init_simple_proc"


section \<open>Release and close in every program\<close>

text \<open>The calls of a trace that request the lines, release the request or close the chip.\<close>

definition resource_calls :: "lib_call list \<Rightarrow> lib_call list" where
  "resource_calls t =
     filter (\<lambda>c. c = CHIP_REQUEST_LINES \<or> c = LINE_REQUEST_RELEASE \<or> c = CHIP_CLOSE) t"

lemma resource_calls_append [simp]:
  "resource_calls (t @ u) = resource_calls t @ resource_calls u"
  by (simp add: resource_calls_def)

lemma resource_calls_simps [simp]:
  "resource_calls [] = []"
  "resource_calls (c # t) =
     (if c = CHIP_REQUEST_LINES \<or> c = LINE_REQUEST_RELEASE \<or> c = CHIP_CLOSE
      then c # resource_calls t else resource_calls t)"
  by (simp_all add: resource_calls_def)

lemma not_in_resource_calls:
  "c \<notin> set (resource_calls t) \<Longrightarrow>
     c = CHIP_REQUEST_LINES \<or> c = LINE_REQUEST_RELEASE \<or> c = CHIP_CLOSE \<Longrightarrow> c \<notin> set t"
  by (simp add: resource_calls_def)

lemma exec_startup_ok:
  assumes "calls_ok env cs" "status s = Running"
  shows "exec (map (checked_call env) cs @ rest) s = exec rest (s\<lparr>trace := trace s @ cs\<rparr>)"
  using assms by (simp add: exec_append exec_checked_calls_ok)

lemma exec_startup_fail:
  assumes "\<not> calls_ok env cs" "status s = Running" "\<not> handler_installed s"
  shows "(status (exec (map (checked_call env) cs @ rest) s) = Aborted
        \<or> status (exec (map (checked_call env) cs @ rest) s) = Killed)
     \<and> set (trace (exec (map (checked_call env) cs @ rest) s)) \<subseteq> set (trace s) \<union> set cs"
proof -
  note f = exec_checked_calls_fail [OF assms]
  then have "exec rest (exec (map (checked_call env) cs) s) = exec (map (checked_call env) cs) s"
    by (intro exec_stopped) auto
  then show ?thesis
    using f by (simp add: exec_append)
qed

lemma void_call_handled:
  assumes "status s = Running" "handler_installed s"
  shows "status (void_call env c s) = Running" "handler_installed (void_call env c s)"
    "trace (void_call env c s) = trace s @ [c]"
  using assms by (simp_all add: void_call_def deliver_sigint_def ctrl_c_handler_def Let_def)

lemma toggle1_outcome:
  "status s = Running \<Longrightarrow> handler_installed s \<Longrightarrow>
     (status (toggle1 sigs code s) = Running \<or> status (toggle1 sigs code s) = Unfinished)
     \<and> resource_calls (trace (toggle1 sigs code s)) = resource_calls (trace s)
     \<and> handler_installed (toggle1 sigs code s)"
proof (induction sigs arbitrary: code s)
  case Nil
  then show ?case by simp
next
  case (Cons sig sigs)
  let ?s1 = "if sig then deliver_sigint s else s"
  have s1: "status ?s1 = Running" "handler_installed ?s1" "trace ?s1 = trace s"
    using Cons.prems by (simp_all add: deliver_sigint_def ctrl_c_handler_def)
  show ?case
  proof (cases "quitting ?s1")
    case True
    then show ?thesis
      using s1 by (simp add: Let_def)
  next
    case False
    let ?s2 = "?s1\<lparr>trace := trace ?s1 @ [LINE_REQUEST_SET_VALUE (code_values1 ! code)]\<rparr>"
    have "toggle1 (sig # sigs) code s = toggle1 sigs (1 - code) ?s2"
      using False s1 by (simp add: Let_def)
    moreover have "(status (toggle1 sigs (1 - code) ?s2) = Running
        \<or> status (toggle1 sigs (1 - code) ?s2) = Unfinished)
      \<and> resource_calls (trace (toggle1 sigs (1 - code) ?s2)) = resource_calls (trace ?s2)
      \<and> handler_installed (toggle1 sigs (1 - code) ?s2)"
      using s1 by (intro Cons.IH) simp_all
    ultimately show ?thesis
      using s1 by simp
  qed
qed

lemma count2_outcome:
  "status s = Running \<Longrightarrow> handler_installed s \<Longrightarrow>
     (status (count2 sigs code s) = Running \<or> status (count2 sigs code s) = Unfinished)
     \<and> resource_calls (trace (count2 sigs code s)) = resource_calls (trace s)
     \<and> handler_installed (count2 sigs code s)"
proof (induction sigs arbitrary: code s)
  case Nil
  then show ?case by simp
next
  case (Cons sig sigs)
  let ?s1 = "if sig then deliver_sigint s else s"
  let ?code = "if code + 1 \<ge> code_max then 0 else code + 1"
  have s1: "status ?s1 = Running" "handler_installed ?s1" "trace ?s1 = trace s"
    using Cons.prems by (simp_all add: deliver_sigint_def ctrl_c_handler_def)
  show ?case
  proof (cases "quitting ?s1")
    case True
    then show ?thesis
      using s1 by (simp add: Let_def)
  next
    case False
    let ?s2 = "?s1\<lparr>trace := trace ?s1 @ [LINE_REQUEST_SET_VALUES (code_values2 ! code)]\<rparr>"
    have "count2 (sig # sigs) code s = count2 sigs ?code ?s2"
      using False s1 by (simp add: Let_def)
    moreover have "(status (count2 sigs ?code ?s2) = Running
        \<or> status (count2 sigs ?code ?s2) = Unfinished)
      \<and> resource_calls (trace (count2 sigs ?code ?s2)) = resource_calls (trace ?s2)
      \<and> handler_installed (count2 sigs ?code ?s2)"
      using s1 by (intro Cons.IH) simp_all
    ultimately show ?thesis
      using s1 by simp
  qed
qed

lemma proc_print_change [simp]:
  "status (print_change vs i s) = status s"
  "trace (print_change vs i s) = trace s"
  "handler_installed (print_change vs i s) = handler_installed s"
  "quitting (print_change vs i s) = quitting s"
  by (simp_all add: print_change_def printf_def)

lemma poll_outcome:
  "status s = Running \<Longrightarrow> handler_installed s \<Longrightarrow>
     (status (poll rs s) = Running \<or> status (poll rs s) = Aborted
        \<or> status (poll rs s) = Unfinished)
     \<and> resource_calls (trace (poll rs s)) = resource_calls (trace s)
     \<and> handler_installed (poll rs s)"
proof (induction rs arbitrary: s)
  case Nil
  then show ?case by simp
next
  case (Cons r rs)
  let ?s1 = "if sigint_poll r then deliver_sigint s else s"
  have s1: "status ?s1 = Running" "handler_installed ?s1" "trace ?s1 = trace s"
    using Cons.prems by (simp_all add: deliver_sigint_def ctrl_c_handler_def)
  show ?case
  proof (cases "quitting ?s1 \<or> get_values_fails r")
    case True
    then show ?thesis
      using s1 by (auto simp: Let_def)
  next
    case False
    let ?s2 = "print_change (values_read r) 1 (print_change (values_read r) 0
        (?s1\<lparr>trace := trace ?s1 @ [LINE_REQUEST_GET_VALUES]\<rparr>))"
    have "poll (r # rs) s = poll rs ?s2"
      using False s1 by (simp add: Let_def)
    moreover have "(status (poll rs ?s2) = Running \<or> status (poll rs ?s2) = Aborted
        \<or> status (poll rs ?s2) = Unfinished)
      \<and> resource_calls (trace (poll rs ?s2)) = resource_calls (trace ?s2)
      \<and> handler_installed (poll rs ?s2)"
      using s1 by (intro Cons.IH) simp_all
    ultimately show ?thesis
      using s1 by simp
  qed
qed

text \<open>The asserted calls with which the two output programs and input_simple.cpp start.\<close>

definition startup_calls_output :: "lib_call list" where
  "startup_calls_output =
     [LINE_CONFIG_NEW, LINE_SETTINGS_NEW, LINE_CONFIG_ADD_LINE_SETTINGS,
      LINE_CONFIG_SET_OUTPUT_VALUES, CHIP_OPEN, REQUEST_CONFIG_NEW, CHIP_REQUEST_LINES]"

definition startup_calls_input_simple :: "lib_call list" where
  "startup_calls_input_simple =
     [LINE_SETTINGS_NEW, LINE_CONFIG_NEW, LINE_CONFIG_ADD_LINE_SETTINGS,
      CHIP_OPEN, REQUEST_CONFIG_NEW, CHIP_REQUEST_LINES]"

lemma main_output1_simple_outcome:
  "status (main_output1_simple env sigs) = Exited 0
     \<and> resource_calls (trace (main_output1_simple env sigs)) =
         [CHIP_REQUEST_LINES, CHIP_CLOSE, LINE_REQUEST_RELEASE]
   \<or> (status (main_output1_simple env sigs) = Aborted
        \<or> status (main_output1_simple env sigs) = Killed
        \<or> status (main_output1_simple env sigs) = Unfinished)
     \<and> LINE_REQUEST_RELEASE \<notin> set (trace (main_output1_simple env sigs))"
proof -
  let ?rest = "[void_call env CHIP_CLOSE, signal_SIGINT, toggle1 sigs 0,
        void_call env (LINE_REQUEST_SET_VALUE (code_values1 ! 0)),
        void_call env LINE_REQUEST_RELEASE, return_main 0]"
  have split: "main_output1_simple env sigs =
      exec (map (checked_call env) startup_calls_output @ ?rest) init_proc"
    by (simp add: main_output1_simple_def startup_calls_output_def)
  have init: "status init_proc = Running" "\<not> handler_installed init_proc" "trace init_proc = []"
    by (simp_all add: init_proc_def)
  show ?thesis
  proof (cases "calls_ok env startup_calls_output")
    case False
    note f = exec_startup_fail [OF False init(1,2), of ?rest]
    have "LINE_REQUEST_RELEASE \<notin> set (trace init_proc) \<union> set startup_calls_output"
      by (simp add: init startup_calls_output_def)
    then have "LINE_REQUEST_RELEASE \<notin>
        set (trace (exec (map (checked_call env) startup_calls_output @ ?rest) init_proc))"
      using f by blast
    then show ?thesis
      unfolding split using f by blast
  next
    case True
    let ?s0 = "init_proc\<lparr>trace := trace init_proc @ startup_calls_output\<rparr>"
    have main: "main_output1_simple env sigs = exec ?rest ?s0"
      unfolding split by (rule exec_startup_ok [OF True init(1)])
    show ?thesis
    proof (cases "sigint_at env = Some CHIP_CLOSE")
      case True
      then have "exec ?rest ?s0 = ?s0\<lparr>status := Killed\<rparr>"
        by (simp add: exec.simps void_call_def deliver_sigint_def init Let_def)
      then show ?thesis
        unfolding main by (simp add: init startup_calls_output_def)
    next
      case False
      let ?s2 = "signal_SIGINT (?s0\<lparr>trace := trace ?s0 @ [CHIP_CLOSE]\<rparr>)"
      let ?T = "[void_call env (LINE_REQUEST_SET_VALUE (code_values1 ! 0)),
        void_call env LINE_REQUEST_RELEASE, return_main 0]"
      have e: "exec ?rest ?s0 = exec ?T (toggle1 sigs 0 ?s2)"
        using False
        by (simp add: exec_Cons_running void_call_def init signal_SIGINT_def Let_def)
      have s2: "status ?s2 = Running" "handler_installed ?s2"
        "resource_calls (trace ?s2) = [CHIP_REQUEST_LINES, CHIP_CLOSE]"
        by (simp_all add: signal_SIGINT_def init startup_calls_output_def)
      note l = toggle1_outcome [OF s2(1,2), of sigs 0]
      show ?thesis
      proof (cases "status (toggle1 sigs 0 ?s2) = Running")
        case True
        note v1 = void_call_handled [OF True, of env "LINE_REQUEST_SET_VALUE (code_values1 ! 0)"]
        note v2 = void_call_handled [OF v1(1,2), of env LINE_REQUEST_RELEASE]
        have "status (exec ?T (toggle1 sigs 0 ?s2)) = Exited 0
          \<and> resource_calls (trace (exec ?T (toggle1 sigs 0 ?s2))) =
              [CHIP_REQUEST_LINES, CHIP_CLOSE, LINE_REQUEST_RELEASE]"
          using True l v1 v2 s2(3)
          by (simp add: exec_Cons_running exec.simps(1) return_main_def)
        then show ?thesis
          unfolding main e by simp
      next
        case False
        then have stop: "exec ?T (toggle1 sigs 0 ?s2) = toggle1 sigs 0 ?s2"
          by (rule exec_stopped)
        have rc: "resource_calls (trace (toggle1 sigs 0 ?s2)) = [CHIP_REQUEST_LINES, CHIP_CLOSE]"
          using l s2(3) by simp
        have "LINE_REQUEST_RELEASE \<notin> set (resource_calls (trace (toggle1 sigs 0 ?s2)))"
          unfolding rc by simp
        then have "LINE_REQUEST_RELEASE \<notin> set (trace (toggle1 sigs 0 ?s2))"
          by (rule not_in_resource_calls) simp
        moreover have "status (toggle1 sigs 0 ?s2) = Unfinished"
          using False l by blast
        ultimately show ?thesis
          unfolding main e stop by blast
      qed
    qed
  qed
qed

lemma main_output_simple_outcome:
  "status (main_output_simple env sigs) = Exited 0
     \<and> resource_calls (trace (main_output_simple env sigs)) =
         [CHIP_REQUEST_LINES, LINE_REQUEST_RELEASE, CHIP_CLOSE]
   \<or> (status (main_output_simple env sigs) = Aborted
        \<or> status (main_output_simple env sigs) = Killed
        \<or> status (main_output_simple env sigs) = Unfinished)
     \<and> LINE_REQUEST_RELEASE \<notin> set (trace (main_output_simple env sigs))
     \<and> CHIP_CLOSE \<notin> set (trace (main_output_simple env sigs))"
proof -
  let ?T = "[void_call env (LINE_REQUEST_SET_VALUES (code_values2 ! 0)),
        void_call env LINE_REQUEST_RELEASE, void_call env CHIP_CLOSE, return_main 0]"
  let ?rest = "signal_SIGINT # count2 sigs 0 # ?T"
  have split: "main_output_simple env sigs =
      exec (map (checked_call env) startup_calls_output @ ?rest) init_proc"
    by (simp add: main_output_simple_def startup_calls_output_def)
  have init: "status init_proc = Running" "\<not> handler_installed init_proc" "trace init_proc = []"
    by (simp_all add: init_proc_def)
  show ?thesis
  proof (cases "calls_ok env startup_calls_output")
    case False
    note f = exec_startup_fail [OF False init(1,2), of ?rest]
    have "LINE_REQUEST_RELEASE \<notin> set (trace init_proc) \<union> set startup_calls_output"
      "CHIP_CLOSE \<notin> set (trace init_proc) \<union> set startup_calls_output"
      by (simp_all add: init startup_calls_output_def)
    then have "LINE_REQUEST_RELEASE \<notin>
        set (trace (exec (map (checked_call env) startup_calls_output @ ?rest) init_proc))"
      "CHIP_CLOSE \<notin>
        set (trace (exec (map (checked_call env) startup_calls_output @ ?rest) init_proc))"
      using f by blast+
    then show ?thesis
      unfolding split using f by blast
  next
    case True
    let ?s0 = "init_proc\<lparr>trace := trace init_proc @ startup_calls_output\<rparr>"
    let ?s2 = "signal_SIGINT ?s0"
    have main: "main_output_simple env sigs = exec ?T (count2 sigs 0 ?s2)"
      unfolding split exec_startup_ok [OF True init(1)]
      by (simp add: exec_Cons_running init signal_SIGINT_def)
    have s2: "status ?s2 = Running" "handler_installed ?s2"
      "resource_calls (trace ?s2) = [CHIP_REQUEST_LINES]"
      by (simp_all add: signal_SIGINT_def init startup_calls_output_def)
    note l = count2_outcome [OF s2(1,2), of sigs 0]
    have rc: "resource_calls (trace (count2 sigs 0 ?s2)) = [CHIP_REQUEST_LINES]"
      using l s2(3) by simp
    show ?thesis
    proof (cases "status (count2 sigs 0 ?s2) = Running")
      case True
      have h: "handler_installed (count2 sigs 0 ?s2)"
        using l by simp
      note v1 = void_call_handled [OF True h, of env "LINE_REQUEST_SET_VALUES (code_values2 ! 0)"]
      note v2 = void_call_handled [OF v1(1,2), of env LINE_REQUEST_RELEASE]
      note v3 = void_call_handled [OF v2(1,2), of env CHIP_CLOSE]
      have "status (exec ?T (count2 sigs 0 ?s2)) = Exited 0
        \<and> resource_calls (trace (exec ?T (count2 sigs 0 ?s2))) =
            [CHIP_REQUEST_LINES, LINE_REQUEST_RELEASE, CHIP_CLOSE]"
        using True v1 v2 v3 rc
        by (simp add: exec_Cons_running exec.simps(1) return_main_def)
      then show ?thesis
        unfolding main by simp
    next
      case False
      then have stop: "exec ?T (count2 sigs 0 ?s2) = count2 sigs 0 ?s2"
        by (rule exec_stopped)
      have "LINE_REQUEST_RELEASE \<notin> set (resource_calls (trace (count2 sigs 0 ?s2)))"
        "CHIP_CLOSE \<notin> set (resource_calls (trace (count2 sigs 0 ?s2)))"
        unfolding rc by simp_all
      then have "LINE_REQUEST_RELEASE \<notin> set (trace (count2 sigs 0 ?s2))"
        "CHIP_CLOSE \<notin> set (trace (count2 sigs 0 ?s2))"
        by (auto dest: not_in_resource_calls)
      moreover have "status (count2 sigs 0 ?s2) = Unfinished"
        using False l by blast
      ultimately show ?thesis
        unfolding main stop by blast
    qed
  qed
qed

lemma main_input_simple_outcome:
  "status (main_input_simple env first rounds) = Exited 0
     \<and> resource_calls (trace (main_input_simple env first rounds)) =
         [CHIP_REQUEST_LINES, LINE_REQUEST_RELEASE, CHIP_CLOSE]
   \<or> (status (main_input_simple env first rounds) = Aborted
        \<or> status (main_input_simple env first rounds) = Killed
        \<or> status (main_input_simple env first rounds) = Unfinished)
     \<and> LINE_REQUEST_RELEASE \<notin> set (trace (main_input_simple env first rounds))
     \<and> CHIP_CLOSE \<notin> set (trace (main_input_simple env first rounds))"
proof -
  let ?T = "[void_call env LINE_REQUEST_RELEASE, void_call env CHIP_CLOSE, return_main 0]"
  let ?L = "(\<lambda>s. s\<lparr>values_old := first\<rparr>) # poll rounds # ?T"
  let ?rest = "printf (''debounce time = '' @ dec debounce_us @ '' usec'' @ NL)
      # signal_SIGINT # checked_call env LINE_REQUEST_GET_VALUES # ?L"
  have split: "main_input_simple env first rounds =
      exec (map (checked_call env) startup_calls_input_simple @ ?rest) init_simple_proc"
    by (simp add: main_input_simple_def startup_calls_input_simple_def)
  have init: "status init_simple_proc = Running" "\<not> handler_installed init_simple_proc"
    "trace init_simple_proc = []"
    by (simp_all add: init_simple_proc_def)
  show ?thesis
  proof (cases "calls_ok env startup_calls_input_simple")
    case False
    note f = exec_startup_fail [OF False init(1,2), of ?rest]
    have "LINE_REQUEST_RELEASE \<notin> set (trace init_simple_proc) \<union> set startup_calls_input_simple"
      "CHIP_CLOSE \<notin> set (trace init_simple_proc) \<union> set startup_calls_input_simple"
      by (simp_all add: init startup_calls_input_simple_def)
    then have "LINE_REQUEST_RELEASE \<notin>
        set (trace (exec (map (checked_call env) startup_calls_input_simple @ ?rest) init_simple_proc))"
      "CHIP_CLOSE \<notin>
        set (trace (exec (map (checked_call env) startup_calls_input_simple @ ?rest) init_simple_proc))"
      using f by blast+
    then show ?thesis
      unfolding split using f by blast
  next
    case True
    let ?s0 = "init_simple_proc\<lparr>trace := trace init_simple_proc @ startup_calls_input_simple\<rparr>"
    let ?s2 = "signal_SIGINT (printf (''debounce time = '' @ dec debounce_us @ '' usec'' @ NL) ?s0)"
    let ?s3 = "checked_call env LINE_REQUEST_GET_VALUES ?s2"
    have main: "main_input_simple env first rounds = exec ?L ?s3"
      unfolding split exec_startup_ok [OF True init(1)]
      by (simp add: exec_Cons_running init signal_SIGINT_def printf_def)
    have s2: "status ?s2 = Running" "handler_installed ?s2"
      "resource_calls (trace ?s2) = [CHIP_REQUEST_LINES]"
      by (simp_all add: signal_SIGINT_def printf_def init startup_calls_input_simple_def)
    show ?thesis
    proof (cases "call_fails env LINE_REQUEST_GET_VALUES")
      case True
      then have s3: "status ?s3 = Aborted" "trace ?s3 = trace ?s2"
        using s2(1,2)
        by (simp_all add: checked_call_def deliver_sigint_def ctrl_c_handler_def Let_def)
      then have stop: "exec ?L ?s3 = ?s3"
        by (intro exec_stopped) simp
      have "LINE_REQUEST_RELEASE \<notin> set (resource_calls (trace ?s3))"
        "CHIP_CLOSE \<notin> set (resource_calls (trace ?s3))"
        unfolding s3(2) s2(3) by simp_all
      then have "LINE_REQUEST_RELEASE \<notin> set (trace ?s3)" "CHIP_CLOSE \<notin> set (trace ?s3)"
        by (auto dest: not_in_resource_calls)
      then show ?thesis
        unfolding main stop using s3(1) by blast
    next
      case False
      let ?s4 = "?s3\<lparr>values_old := first\<rparr>"
      have s4: "status ?s4 = Running" "handler_installed ?s4"
        "resource_calls (trace ?s4) = [CHIP_REQUEST_LINES]"
        using False s2
        by (simp_all add: checked_call_def deliver_sigint_def ctrl_c_handler_def Let_def)
      have s3: "status ?s3 = Running"
        using s4(1) by simp
      have main': "main_input_simple env first rounds = exec ?T (poll rounds ?s4)"
        unfolding main using s3 s4(1) by (simp add: exec_Cons_running)
      note l = poll_outcome [OF s4(1,2), of rounds]
      have rc: "resource_calls (trace (poll rounds ?s4)) = [CHIP_REQUEST_LINES]"
        using l s4(3) by simp
      show ?thesis
      proof (cases "status (poll rounds ?s4) = Running")
        case True
        have h: "handler_installed (poll rounds ?s4)"
          using l by simp
        have "status (exec ?T (poll rounds ?s4)) = Exited 0
          \<and> resource_calls (trace (exec ?T (poll rounds ?s4))) =
              [CHIP_REQUEST_LINES, LINE_REQUEST_RELEASE, CHIP_CLOSE]"
          using exec_teardown(1,2) [OF True h, of env] rc by simp
        then show ?thesis
          unfolding main' by simp
      next
        case False
        then have stop: "exec ?T (poll rounds ?s4) = poll rounds ?s4"
          by (rule exec_stopped)
        have "LINE_REQUEST_RELEASE \<notin> set (resource_calls (trace (poll rounds ?s4)))"
          "CHIP_CLOSE \<notin> set (resource_calls (trace (poll rounds ?s4)))"
          unfolding rc by simp_all
        then have "LINE_REQUEST_RELEASE \<notin> set (trace (poll rounds ?s4))"
          "CHIP_CLOSE \<notin> set (trace (poll rounds ?s4))"
          by (auto dest: not_in_resource_calls)
        moreover have "status (poll rounds ?s4) = Aborted \<or> status (poll rounds ?s4) = Unfinished"
          using False l by blast
        ultimately show ?thesis
          unfolding main' stop by blast
      qed
    qed
  qed
qed

text \<open>
  Claim C5, as amended. In input_events.cpp, input_simple.cpp and output_simple.cpp a run
  in which \<^verbatim>\<open>main\<close> returns has requested the lines, then released the request, then
  closed the chip, each exactly once and in this order; a run that ends otherwise (a
  failed \<^verbatim>\<open>assert\<close>, an early SIGINT, or the loop still running) has neither released nor
  closed. In output1_simple.cpp a run in which \<^verbatim>\<open>main\<close> returns has requested the lines,
  then closed the chip, then released the request, each exactly once: the chip is closed
  while the request is held; a run that ends otherwise has not released the request.
\<close>

theorem release_and_close_order:
  "(status (main_input_events env rounds) = Exited 0
      \<and> resource_calls (trace (main_input_events env rounds)) =
          [CHIP_REQUEST_LINES, LINE_REQUEST_RELEASE, CHIP_CLOSE]
    \<or> (status (main_input_events env rounds) = Aborted
         \<or> status (main_input_events env rounds) = Killed
         \<or> status (main_input_events env rounds) = Unfinished)
      \<and> LINE_REQUEST_RELEASE \<notin> set (trace (main_input_events env rounds))
      \<and> CHIP_CLOSE \<notin> set (trace (main_input_events env rounds)))
   \<and> (status (main_input_simple env first polls) = Exited 0
      \<and> resource_calls (trace (main_input_simple env first polls)) =
          [CHIP_REQUEST_LINES, LINE_REQUEST_RELEASE, CHIP_CLOSE]
    \<or> (status (main_input_simple env first polls) = Aborted
         \<or> status (main_input_simple env first polls) = Killed
         \<or> status (main_input_simple env first polls) = Unfinished)
      \<and> LINE_REQUEST_RELEASE \<notin> set (trace (main_input_simple env first polls))
      \<and> CHIP_CLOSE \<notin> set (trace (main_input_simple env first polls)))
   \<and> (status (main_output_simple env sigs) = Exited 0
      \<and> resource_calls (trace (main_output_simple env sigs)) =
          [CHIP_REQUEST_LINES, LINE_REQUEST_RELEASE, CHIP_CLOSE]
    \<or> (status (main_output_simple env sigs) = Aborted
         \<or> status (main_output_simple env sigs) = Killed
         \<or> status (main_output_simple env sigs) = Unfinished)
      \<and> LINE_REQUEST_RELEASE \<notin> set (trace (main_output_simple env sigs))
      \<and> CHIP_CLOSE \<notin> set (trace (main_output_simple env sigs)))
   \<and> (status (main_output1_simple env sigs) = Exited 0
      \<and> resource_calls (trace (main_output1_simple env sigs)) =
          [CHIP_REQUEST_LINES, CHIP_CLOSE, LINE_REQUEST_RELEASE]
    \<or> (status (main_output1_simple env sigs) = Aborted
         \<or> status (main_output1_simple env sigs) = Killed
         \<or> status (main_output1_simple env sigs) = Unfinished)
      \<and> LINE_REQUEST_RELEASE \<notin> set (trace (main_output1_simple env sigs)))"
proof (intro conjI)
  show "status (main_input_events env rounds) = Exited 0
      \<and> resource_calls (trace (main_input_events env rounds)) =
          [CHIP_REQUEST_LINES, LINE_REQUEST_RELEASE, CHIP_CLOSE]
    \<or> (status (main_input_events env rounds) = Aborted
         \<or> status (main_input_events env rounds) = Killed
         \<or> status (main_input_events env rounds) = Unfinished)
      \<and> LINE_REQUEST_RELEASE \<notin> set (trace (main_input_events env rounds))
      \<and> CHIP_CLOSE \<notin> set (trace (main_input_events env rounds))"
  proof (cases "calls_ok env startup_calls")
    case True
    then show ?thesis
      using main_input_events_ok [of env rounds] by (auto simp: startup_calls_def)
  next
    case False
    then show ?thesis
      using main_input_events_failed [of env rounds] by (auto simp: startup_calls_def)
  qed
qed (rule main_input_simple_outcome main_output_simple_outcome main_output1_simple_outcome)+

text \<open>
  Claim C5 as stated fails for output1_simple.cpp: in a run that is interrupted in the
  second evaluation of the loop condition, the chip is closed directly after the line
  request, before the request is used in the loop and released at the end.
\<close>

theorem output1_simple_closes_before_release:
  "status (main_output1_simple \<lparr>call_fails = (\<lambda>c. False), sigint_at = None\<rparr> [False, True]) = Exited 0
   \<and> trace (main_output1_simple \<lparr>call_fails = (\<lambda>c. False), sigint_at = None\<rparr> [False, True]) =
       [LINE_CONFIG_NEW, LINE_SETTINGS_NEW, LINE_CONFIG_ADD_LINE_SETTINGS,
        LINE_CONFIG_SET_OUTPUT_VALUES, CHIP_OPEN, REQUEST_CONFIG_NEW, CHIP_REQUEST_LINES,
        CHIP_CLOSE, LINE_REQUEST_SET_VALUE INACTIVE, LINE_REQUEST_SET_VALUE INACTIVE,
        LINE_REQUEST_RELEASE]"
  by (simp add: main_output1_simple_def exec.simps init_proc_def checked_call_def void_call_def
      signal_SIGINT_def deliver_sigint_def ctrl_c_handler_def return_main_def code_values1_def
      Let_def)

end
